theory Spec2Isabelle
  imports Main "HOL-Library.Word"
begin

section \<open>Strings and bytes\<close>

text \<open>
  A Python \<open>str\<close> is a sequence of Unicode code points; \<open>len\<close> and slicing count
  code points. Code points are natural numbers (Python keeps them below \<open>0x110000\<close>,
  and lone surrogates \<open>0xD800..0xDFFF\<close> are legal elements of a \<open>str\<close>).
  A Python \<open>bytes\<close> object is a list of 8-bit words.
\<close>

type_synonym pystr = "nat list"
type_synonym byte = "8 word"

definition str :: "string \<Rightarrow> pystr" where
  "str s = map of_char s"

text \<open>\<open>kw in s\<close> on strings: \<open>kw\<close> occurs as a contiguous substring of \<open>s\<close>.\<close>

fun py_in :: "pystr \<Rightarrow> pystr \<Rightarrow> bool" where
  "py_in kw [] = (kw = [])"
| "py_in kw (c # cs) = (take (length kw) (c # cs) = kw \<or> py_in kw cs)"

text \<open>
  \<open>str.lower()\<close> follows the Unicode case tables, which are not part of the repository;
  the functions below take it as the parameter \<open>lower\<close>. \<open>ascii_lower\<close> is its
  restriction to ASCII letters, used to run the functions on ASCII input.
\<close>

definition ascii_lower :: "pystr \<Rightarrow> pystr" where
  "ascii_lower s = map (\<lambda>c. if 65 \<le> c \<and> c \<le> 90 then c + 32 else c) s"

section \<open>core/categorize.py\<close>

definition CATEGORY_KEYWORDS :: "(pystr \<times> pystr list) list" where
  "CATEGORY_KEYWORDS =
    [(str ''documentation'', map str [''docs'', ''documentation'', ''guide'', ''tutorial'', ''manual'', ''reference'']),
     (str ''news'', map str [''news'', ''article'', ''update'', ''announcement'', ''press'', ''release'']),
     (str ''product'', map str [''product'', ''feature'', ''pricing'', ''plan'', ''subscription'', ''service'']),
     (str ''support'', map str [''help'', ''support'', ''faq'', ''troubleshoot'', ''issue'', ''contact'']),
     (str ''legal'', map str [''terms'', ''privacy'', ''policy'', ''legal'', ''agreement'', ''disclaimer'']),
     (str ''general'', [])]"

text \<open>\<open>matches = [kw for kw in keywords if kw in combined]\<close>\<close>

definition matches :: "pystr \<Rightarrow> pystr list \<Rightarrow> pystr list" where
  "matches combined keywords = filter (\<lambda>kw. py_in kw combined) keywords"

text \<open>
  The body of \<open>for category, keywords in CATEGORY_KEYWORDS.items()\<close>, with the loop
  variables \<open>best_category\<close>, \<open>max_matches\<close> and \<open>tags\<close> passed along. A dict iterates
  in insertion order, so the table is an association list.
\<close>

fun categorize_loop ::
  "pystr \<Rightarrow> (pystr \<times> pystr list) list \<Rightarrow> pystr \<Rightarrow> nat \<Rightarrow> pystr list \<Rightarrow> pystr \<times> nat \<times> pystr list" where
  "categorize_loop combined [] best_category max_matches tags = (best_category, max_matches, tags)"
| "categorize_loop combined ((category, keywords) # rest) best_category max_matches tags =
     (if category = str ''general'' then categorize_loop combined rest best_category max_matches tags
      else if matches combined keywords \<noteq> [] then
        (if length (matches combined keywords) > max_matches
         then categorize_loop combined rest category (length (matches combined keywords))
                (tags @ take 3 (matches combined keywords))
         else categorize_loop combined rest best_category max_matches
                (tags @ take 3 (matches combined keywords)))
      else categorize_loop combined rest best_category max_matches tags)"

text \<open>
  \<open>categorize_content\<close> returns \<open>(best_category, list(set(tags)))\<close>; the order of
  \<open>list(set(...))\<close> is unspecified, so the tags are returned as a set.
\<close>

definition categorize_content ::
  "(pystr \<Rightarrow> pystr) \<Rightarrow> (pystr \<times> pystr list) list \<Rightarrow> pystr \<Rightarrow> pystr \<Rightarrow> pystr \<times> pystr set" where
  "categorize_content lower table title text_body =
     (let combined = lower (title @ str '' '' @ take 2000 text_body) in
      case categorize_loop combined table (str ''general'') 0 [] of
        (best_category, max_matches, tags) \<Rightarrow> (best_category, set tags))"

text \<open>The number of keywords of one category of the table that occur in the search string.\<close>

definition match_count ::
  "(pystr \<Rightarrow> pystr) \<Rightarrow> (pystr \<times> pystr list) list \<Rightarrow> pystr \<Rightarrow> pystr \<Rightarrow> pystr \<Rightarrow> nat" where
  "match_count lower table title text_body category =
     (case map_of table category of
        None \<Rightarrow> 0
      | Some keywords \<Rightarrow> length (matches (lower (title @ str '' '' @ take 2000 text_body)) keywords))"

text \<open>
  What the loop leaves in \<open>best_category\<close> and \<open>max_matches\<close>: the largest match count
  seen, and the first non-default category that reaches it (or the starting values when
  no category beats \<open>max_matches\<close>).
\<close>

definition first_best :: "pystr \<Rightarrow> (pystr \<times> pystr list) list \<Rightarrow> pystr \<Rightarrow> nat \<Rightarrow> pystr \<Rightarrow> nat \<Rightarrow> bool" where
  "first_best combined table b m b' m' \<longleftrightarrow>
     m \<le> m' \<and>
     (\<forall>(c, ks) \<in> set table. c \<noteq> str ''general'' \<longrightarrow> length (matches combined ks) \<le> m') \<and>
     ((b' = b \<and> m' = m) \<or>
      (\<exists>pre ks post. table = pre @ (b', ks) # post \<and> b' \<noteq> str ''general'' \<and>
          length (matches combined ks) = m' \<and> m < m' \<and>
          (\<forall>(c, ks') \<in> set pre. c \<noteq> str ''general'' \<longrightarrow> length (matches combined ks') < m')))"

section \<open>Exceptions, configuration and the environment\<close>

text \<open>
  A function that can raise returns \<open>exn + 'a\<close>: \<open>Inl e\<close> is the exception \<open>e\<close>
  leaving the function, \<open>Inr v\<close> the returned value.
\<close>

datatype exn =
    ValueError pystr
  | FileNotFoundError pystr
  | UnicodeEncodeError
  | UnicodeDecodeError
  | BinasciiError
  | RuntimeError pystr
  | OperationalError pystr
  | TimeoutError pystr

text \<open>A JSON object with string values (the \<open>metadata\<close> columns and config entries).\<close>

type_synonym json = "(pystr \<times> pystr) list"

text \<open>
  One entry of \<open>config['targets']\<close>. \<open>metadata\<close> and \<open>source\<close> are read with
  \<open>target.get\<close>, so they may be absent; the other keys are read with \<open>target[...]\<close>.
\<close>

record target =
  t_id :: pystr
  t_name :: pystr
  t_slug :: pystr
  t_category :: pystr
  t_metadata :: "json option"
  t_url :: pystr
  t_source :: "pystr option"

text \<open>The item dicts an adapter returns: keys \<open>number\<close>, \<open>title\<close>, \<open>text\<close>, \<open>url\<close>.\<close>

record raw_item =
  raw_number :: pystr
  raw_title :: pystr
  raw_text :: pystr
  raw_url :: pystr

text \<open>
  An adapter instance (\<open>adapters/base.py\<close>): its display name and its two abstract
  methods. \<open>extract_items\<close> drives a browser; what it returns or raises is given by
  the environment.
\<close>

record adapter =
  DISPLAY_NAME :: pystr
  validate_url :: "pystr \<Rightarrow> bool"
  extract_items :: "pystr \<Rightarrow> target \<Rightarrow> exn + raw_item list"

text \<open>
  \<open>lz4.frame\<close> is a third-party library: its two functions are parameters of the
  model. \<open>decompress\<close> raises on input that is not a frame.
\<close>

record lz4_frame =
  lz4_compress :: "byte list \<Rightarrow> byte list"
  lz4_decompress :: "byte list \<Rightarrow> exn + byte list"

text \<open>
  Everything outside the program. Database calls are numbered in the order they are
  made: \<open>db_fault env t = Some e\<close> says that call number \<open>t\<close> raises \<open>e\<close> before it
  commits anything (no \<open>DATABASE_URL\<close>, connection refused, statement rejected),
  \<open>NOW env t\<close> is the time that call sees and \<open>gen_random_uuid env t\<close> the id it
  draws. \<open>config_files\<close> maps a region to the targets of its config file, when the
  file exists. \<open>unicode_isprintable\<close> is \<open>str.isprintable\<close> on one character, which
  like \<open>str.lower\<close> follows the Unicode tables.
\<close>

record env =
  config_files :: "pystr \<Rightarrow> target list option"
  ADAPTERS :: "(pystr \<times> adapter) list"
  lz4 :: lz4_frame
  str_lower :: "pystr \<Rightarrow> pystr"
  unicode_isprintable :: "nat \<Rightarrow> bool"
  db_fault :: "nat \<Rightarrow> exn option"
  NOW :: "nat \<Rightarrow> nat"
  gen_random_uuid :: "nat \<Rightarrow> nat"

section \<open>core/compress.py\<close>

subsection \<open>\<open>str.encode('utf-8')\<close> and \<open>bytes.decode('utf-8')\<close>\<close>

definition byte_of :: "nat \<Rightarrow> byte" where
  "byte_of n = of_nat n"

text \<open>
  The UTF-8 bytes of one code point, or \<open>None\<close> where the strict codec raises: a
  surrogate \<open>0xD800..0xDFFF\<close> is not encodable. (No element of a Python \<open>str\<close> is
  \<open>0x110000\<close> or larger; the model refuses such a number as well.)
\<close>

definition utf8_encode_char :: "nat \<Rightarrow> byte list option" where
  "utf8_encode_char c =
     (if c < 0x80 then Some [byte_of c]
      else if c < 0x800 then Some [byte_of (0xC0 + c div 64), byte_of (0x80 + c mod 64)]
      else if 0xD800 \<le> c \<and> c \<le> 0xDFFF then None
      else if c < 0x10000 then
        Some [byte_of (0xE0 + c div 4096), byte_of (0x80 + c div 64 mod 64), byte_of (0x80 + c mod 64)]
      else if c < 0x110000 then
        Some [byte_of (0xF0 + c div 262144), byte_of (0x80 + c div 4096 mod 64),
              byte_of (0x80 + c div 64 mod 64), byte_of (0x80 + c mod 64)]
      else None)"

fun utf8_encode :: "pystr \<Rightarrow> exn + byte list" where
  "utf8_encode [] = Inr []"
| "utf8_encode (c # cs) =
     (case utf8_encode_char c of
        None \<Rightarrow> Inl UnicodeEncodeError
      | Some bs \<Rightarrow> (case utf8_encode cs of Inl e \<Rightarrow> Inl e | Inr rest \<Rightarrow> Inr (bs @ rest)))"

definition is_continuation :: "byte \<Rightarrow> bool" where
  "is_continuation b \<longleftrightarrow> 0x80 \<le> unat b \<and> unat b < 0xC0"

text \<open>
  The strict decoder reads one code point off the front of the bytes: the lead byte
  gives the length, the continuation bytes must be \<open>10xxxxxx\<close>, and overlong forms,
  surrogates and values from \<open>0x110000\<close> are refused.
\<close>

fun utf8_decode_char :: "byte list \<Rightarrow> (nat \<times> byte list) option" where
  "utf8_decode_char [] = None"
| "utf8_decode_char (b0 # bs) =
     (if unat b0 < 0x80 then Some (unat b0, bs)
      else if unat b0 < 0xC0 then None
      else if unat b0 < 0xE0 then
        (case bs of
           b1 # rest \<Rightarrow>
             if is_continuation b1 then
               (let c = (unat b0 - 0xC0) * 64 + (unat b1 - 0x80)
                in if c < 0x80 then None else Some (c, rest))
             else None
         | _ \<Rightarrow> None)
      else if unat b0 < 0xF0 then
        (case bs of
           b1 # b2 # rest \<Rightarrow>
             if is_continuation b1 \<and> is_continuation b2 then
               (let c = (unat b0 - 0xE0) * 4096 + (unat b1 - 0x80) * 64 + (unat b2 - 0x80)
                in if c < 0x800 \<or> (0xD800 \<le> c \<and> c \<le> 0xDFFF) then None else Some (c, rest))
             else None
         | _ \<Rightarrow> None)
      else if unat b0 < 0xF8 then
        (case bs of
           b1 # b2 # b3 # rest \<Rightarrow>
             if is_continuation b1 \<and> is_continuation b2 \<and> is_continuation b3 then
               (let c = (unat b0 - 0xF0) * 262144 + (unat b1 - 0x80) * 4096
                        + (unat b2 - 0x80) * 64 + (unat b3 - 0x80)
                in if c < 0x10000 \<or> 0x110000 \<le> c then None else Some (c, rest))
             else None
         | _ \<Rightarrow> None)
      else None)"

lemma utf8_decode_char_shorter:
  "utf8_decode_char bs = Some (c, rest) \<Longrightarrow> length rest < length bs"
  by (cases bs) (auto simp: Let_def split: if_splits list.splits)

function utf8_decode :: "byte list \<Rightarrow> exn + pystr" where
  "utf8_decode [] = Inr []"
| "utf8_decode (b # bs) =
     (case utf8_decode_char (b # bs) of
        None \<Rightarrow> Inl UnicodeDecodeError
      | Some (c, rest) \<Rightarrow>
          (case utf8_decode rest of Inl e \<Rightarrow> Inl e | Inr cs \<Rightarrow> Inr (c # cs)))"
  by pat_completeness auto
termination
  by (relation "measure length") (auto dest: utf8_decode_char_shorter simp del: utf8_decode_char.simps)

subsection \<open>\<open>base64.b64encode\<close> and \<open>base64.b64decode\<close>\<close>

definition b64_alphabet :: "byte list" where
  "b64_alphabet = map (\<lambda>c. byte_of (of_char c))
     ''ABCDEFGHIJKLMNOPQRSTUVWXYZabcdefghijklmnopqrstuvwxyz0123456789+/''"

definition b64_pad :: byte where
  "b64_pad = byte_of (of_char CHR ''='')"

definition b64_char :: "nat \<Rightarrow> byte" where
  "b64_char i = b64_alphabet ! (i mod 64)"

fun index_of :: "'a \<Rightarrow> 'a list \<Rightarrow> nat option" where
  "index_of x [] = None"
| "index_of x (y # ys) = (if x = y then Some 0 else map_option Suc (index_of x ys))"

definition b64_index :: "byte \<Rightarrow> nat option" where
  "b64_index b = index_of b b64_alphabet"

text \<open>RFC 4648: three bytes become four characters; a last group of one or two bytes is padded.\<close>

fun b64encode :: "byte list \<Rightarrow> byte list" where
  "b64encode [] = []"
| "b64encode [a] =
     [b64_char (unat a div 4), b64_char (unat a mod 4 * 16), b64_pad, b64_pad]"
| "b64encode [a, b] =
     (let n = unat a * 256 + unat b
      in [b64_char (n div 1024), b64_char (n div 16 mod 64), b64_char (n mod 16 * 4), b64_pad])"
| "b64encode (a # b # c # rest) =
     (let n = unat a * 65536 + unat b * 256 + unat c
      in [b64_char (n div 262144), b64_char (n div 4096 mod 64), b64_char (n div 64 mod 64),
          b64_char (n mod 64)] @ b64encode rest)"

text \<open>
  The decoder on padded groups of four alphabet characters. Anything else is reported
  as \<open>binascii.Error\<close>; Python's decoder is more lenient there (it drops characters
  outside the alphabet), which no caller in this repository relies on, since only
  encoder output is decoded.
\<close>

fun b64decode :: "byte list \<Rightarrow> exn + byte list" where
  "b64decode [] = Inr []"
| "b64decode (c0 # c1 # c2 # c3 # rest) =
     (case (b64_index c0, b64_index c1) of
        (Some i0, Some i1) \<Rightarrow>
          if c2 = b64_pad \<and> c3 = b64_pad \<and> rest = [] then Inr [byte_of ((i0 * 64 + i1) div 16)]
          else (case b64_index c2 of
                  None \<Rightarrow> Inl BinasciiError
                | Some i2 \<Rightarrow>
                    if c3 = b64_pad \<and> rest = [] then
                      (let n = i0 * 4096 + i1 * 64 + i2
                       in Inr [byte_of (n div 1024), byte_of (n div 4 mod 256)])
                    else (case b64_index c3 of
                            None \<Rightarrow> Inl BinasciiError
                          | Some i3 \<Rightarrow>
                              (let n = i0 * 262144 + i1 * 4096 + i2 * 64 + i3
                               in case b64decode rest of
                                    Inl e \<Rightarrow> Inl e
                                  | Inr bs \<Rightarrow>
                                      Inr (byte_of (n div 65536) # byte_of (n div 256 mod 256)
                                           # byte_of (n mod 256) # bs))))
      | _ \<Rightarrow> Inl BinasciiError)"
| "b64decode _ = Inl BinasciiError"

subsection \<open>\<open>compress_text\<close> and \<open>decompress_text\<close>\<close>

definition compress_text :: "lz4_frame \<Rightarrow> pystr \<Rightarrow> exn + pystr" where
  "compress_text z text_body =
     (if text_body = [] then Inr []
      else case utf8_encode text_body of
             Inl e \<Rightarrow> Inl e
           | Inr bytes \<Rightarrow> utf8_decode (b64encode (lz4_compress z bytes)))"

definition decompress_text :: "lz4_frame \<Rightarrow> pystr \<Rightarrow> exn + pystr" where
  "decompress_text z compressed =
     (if compressed = [] then Inr []
      else case utf8_encode compressed of
             Inl e \<Rightarrow> Inl e
           | Inr bytes \<Rightarrow>
               (case b64decode bytes of
                  Inl e \<Rightarrow> Inl e
                | Inr decoded \<Rightarrow>
                    (case lz4_decompress z decoded of
                       Inl e \<Rightarrow> Inl e
                     | Inr decompressed \<Rightarrow> utf8_decode decompressed)))"

text \<open>
  What the library promises of \<open>lz4.frame\<close>: decompressing a compressed frame gives
  the bytes back, and a frame is never empty (it starts with the magic number).
\<close>

definition lz4_lossless :: "lz4_frame \<Rightarrow> bool" where
  "lz4_lossless z \<longleftrightarrow> (\<forall>bs. lz4_decompress z (lz4_compress z bs) = Inr bs \<and> lz4_compress z bs \<noteq> [])"

text \<open>
  A stand-in for the library, used to run the model: the frame is the magic number
  \<open>04 22 4D 18\<close> followed by the bytes, stored uncompressed.
\<close>

definition stored_frame :: lz4_frame where
  "stored_frame =
     \<lparr>lz4_compress = (\<lambda>bs. [0x04, 0x22, 0x4D, 0x18] @ bs),
      lz4_decompress = (\<lambda>bs. if take 4 bs = [0x04, 0x22, 0x4D, 0x18] then Inr (drop 4 bs)
                              else Inl (RuntimeError (str ''LZ4F_decompress failed'')))\<rparr>"

text \<open>A text in which every code point is a Unicode scalar value: in range, and no surrogate.\<close>

definition scalar_values :: "pystr \<Rightarrow> bool" where
  "scalar_values s \<longleftrightarrow> (\<forall>c \<in> set s. c < 0x110000 \<and> \<not> (0xD800 \<le> c \<and> c \<le> 0xDFFF))"

section \<open>core/db.py\<close>

text \<open>The rows of the tables \<open>Source\<close> and \<open>Item\<close>, one field per column.\<close>

record source_row =
  src_id :: nat
  src_createdAt :: nat
  src_updatedAt :: nat
  src_name :: pystr
  src_slug :: pystr
  src_category :: pystr
  src_metadata :: json
  src_sourceUrl :: pystr
  src_adapter :: pystr
  src_lastScraped :: nat

record item_row =
  item_id :: nat
  item_sourceId :: nat
  item_number :: pystr
  item_title :: pystr
  item_category :: pystr
  item_summary :: pystr
  item_tags :: "pystr set"
  item_fullText :: pystr
  item_sourceUrl :: pystr
  item_metadata :: json
  item_scrapedAt :: nat

text \<open>
  The database: the two tables in insertion order, and the number of calls made so far.
  Every function of \<open>core/db.py\<close> opens its own connection, runs one statement and
  commits, so each is one numbered call.
\<close>

record db =
  Source :: "source_row list"
  Item :: "item_row list"
  calls :: nat

text \<open>
  \<open>ON CONFLICT (name)\<close> and \<open>ON CONFLICT ("sourceId", number)\<close> need a unique index
  on those columns: a database the statements run against has at most one \<open>Source\<close>
  row per name and one \<open>Item\<close> row per \<open>(sourceId, number)\<close>.
\<close>

definition item_key :: "item_row \<Rightarrow> nat \<times> pystr" where
  "item_key r = (item_sourceId r, item_number r)"

definition unique_keys :: "db \<Rightarrow> bool" where
  "unique_keys d \<longleftrightarrow> distinct (map src_name (Source d)) \<and> distinct (map item_key (Item d))"

text \<open>Opening the connection and running the statement of call number \<open>calls d\<close>.\<close>

definition get_db_connection :: "env \<Rightarrow> db \<Rightarrow> (exn + unit) \<times> db" where
  "get_db_connection e d =
     (case db_fault e (calls d) of
        Some x \<Rightarrow> (Inl x, d\<lparr>calls := Suc (calls d)\<rparr>)
      | None \<Rightarrow> (Inr (), d\<lparr>calls := Suc (calls d)\<rparr>))"

definition source_exists :: "env \<Rightarrow> pystr \<Rightarrow> db \<Rightarrow> (exn + bool) \<times> db" where
  "source_exists e name d =
     (case get_db_connection e d of
        (Inl x, d') \<Rightarrow> (Inl x, d')
      | (Inr _, d') \<Rightarrow> (Inr (find (\<lambda>r. src_name r = name) (Source d') \<noteq> None), d'))"

definition get_source_id :: "env \<Rightarrow> pystr \<Rightarrow> db \<Rightarrow> (exn + nat option) \<times> db" where
  "get_source_id e name d =
     (case get_db_connection e d of
        (Inl x, d') \<Rightarrow> (Inl x, d')
      | (Inr _, d') \<Rightarrow> (Inr (map_option src_id (find (\<lambda>r. src_name r = name) (Source d'))), d'))"

text \<open>
  \<open>INSERT ... ON CONFLICT (name) DO UPDATE SET "lastScraped" = NOW(), "updatedAt" = NOW()
  RETURNING id\<close>: a row with this name is refreshed in place and its id returned;
  otherwise a new row is appended.
\<close>

definition insert_source ::
  "env \<Rightarrow> pystr \<Rightarrow> pystr \<Rightarrow> pystr \<Rightarrow> json \<Rightarrow> pystr \<Rightarrow> pystr \<Rightarrow> db \<Rightarrow> (exn + nat) \<times> db" where
  "insert_source e name slug category metadata source_url adapter_name d =
     (let t = calls d in
      case get_db_connection e d of
        (Inl x, d') \<Rightarrow> (Inl x, d')
      | (Inr _, d') \<Rightarrow>
          (case find (\<lambda>r. src_name r = name) (Source d') of
             Some r \<Rightarrow>
               (Inr (src_id r),
                d'\<lparr>Source := map (\<lambda>r. if src_name r = name
                                      then r\<lparr>src_lastScraped := NOW e t, src_updatedAt := NOW e t\<rparr>
                                      else r) (Source d')\<rparr>)
           | None \<Rightarrow>
               (Inr (gen_random_uuid e t),
                d'\<lparr>Source := Source d' @
                  [\<lparr>src_id = gen_random_uuid e t, src_createdAt = NOW e t, src_updatedAt = NOW e t,
                    src_name = name, src_slug = slug, src_category = category,
                    src_metadata = metadata, src_sourceUrl = source_url,
                    src_adapter = adapter_name, src_lastScraped = NOW e t\<rparr>]\<rparr>)))"

text \<open>
  \<open>INSERT ... ON CONFLICT ("sourceId", number) DO UPDATE SET title, category, summary,
  tags, "fullText", metadata = EXCLUDED..., "scrapedAt" = NOW()\<close>; the metadata stored
  is \<open>{"adapter": adapter}\<close>. The conflicting row keeps its \<open>id\<close> and \<open>sourceUrl\<close>.
\<close>

definition insert_item ::
  "env \<Rightarrow> nat \<Rightarrow> pystr \<Rightarrow> pystr \<Rightarrow> pystr \<Rightarrow> pystr \<Rightarrow> pystr \<Rightarrow> pystr set \<Rightarrow> pystr \<Rightarrow> pystr \<Rightarrow> db
     \<Rightarrow> (exn + unit) \<times> db" where
  "insert_item e source_id number title category summary full_text_compressed tags source_url adapter_name d =
     (let t = calls d; metadata = [(str ''adapter'', adapter_name)] in
      case get_db_connection e d of
        (Inl x, d') \<Rightarrow> (Inl x, d')
      | (Inr _, d') \<Rightarrow>
          (if \<exists>r \<in> set (Item d'). item_key r = (source_id, number)
           then (Inr (),
                 d'\<lparr>Item := map (\<lambda>r. if item_key r = (source_id, number)
                                    then r\<lparr>item_title := title, item_category := category,
                                           item_summary := summary, item_tags := tags,
                                           item_fullText := full_text_compressed,
                                           item_metadata := metadata, item_scrapedAt := NOW e t\<rparr>
                                    else r) (Item d')\<rparr>)
           else (Inr (),
                 d'\<lparr>Item := Item d' @
                   [\<lparr>item_id = gen_random_uuid e t, item_sourceId = source_id, item_number = number,
                     item_title = title, item_category = category, item_summary = summary,
                     item_tags = tags, item_fullText = full_text_compressed,
                     item_sourceUrl = source_url, item_metadata = metadata,
                     item_scrapedAt = NOW e t\<rparr>]\<rparr>)))"

text \<open>
  \<open>SELECT COUNT(*) FROM "Item" WHERE "sourceId" = %s\<close>. The argument is what
  \<open>get_source_id\<close> returned, so it may be \<open>None\<close>, which no row equals.
\<close>

definition get_item_count :: "env \<Rightarrow> nat option \<Rightarrow> db \<Rightarrow> (exn + nat) \<times> db" where
  "get_item_count e source_id d =
     (case get_db_connection e d of
        (Inl x, d') \<Rightarrow> (Inl x, d')
      | (Inr _, d') \<Rightarrow> (Inr (length (filter (\<lambda>r. Some (item_sourceId r) = source_id) (Item d'))), d'))"

section \<open>adapters/__init__.py and adapters/example.py\<close>

text \<open>
  \<open>ExampleAdapter\<close>: \<open>validate_url\<close> is \<open>"example.com" in url\<close>; \<open>extract_items\<close>
  runs a browser, so what it returns or raises is the parameter \<open>browse\<close>.
\<close>

definition ExampleAdapter :: "(pystr \<Rightarrow> target \<Rightarrow> exn + raw_item list) \<Rightarrow> adapter" where
  "ExampleAdapter browse =
     \<lparr>DISPLAY_NAME = str ''Example.com'',
      validate_url = (\<lambda>url. py_in (str ''example.com'') url),
      extract_items = browse\<rparr>"

text \<open>
  \<open>repr\<close> of a string. The quote is \<open>'\<close> (code point 39), or \<open>"\<close> (34) when the
  string holds a \<open>'\<close> and no \<open>"\<close>. The quote and the backslash (92) are written
  with a backslash before them; tab, newline and carriage return as a backslash and
  \<open>t\<close>, \<open>n\<close>, \<open>r\<close>; the other ASCII control characters and 127 as a backslash,
  \<open>x\<close> and two hexadecimal digits; printable ASCII is copied. A character above 127
  is copied when it is printable, and otherwise written as a backslash and \<open>x\<close>,
  \<open>u\<close> or \<open>U\<close> with two, four or eight hexadecimal digits. The digits are lower
  case.
\<close>

definition hex_digit :: "nat \<Rightarrow> nat" where
  "hex_digit n = (if n < 10 then 48 + n else 87 + n)"

fun hex_digits :: "nat \<Rightarrow> nat \<Rightarrow> pystr" where
  "hex_digits 0 n = []"
| "hex_digits (Suc width) n = hex_digits width (n div 16) @ [hex_digit (n mod 16)]"

definition repr_char :: "(nat \<Rightarrow> bool) \<Rightarrow> nat \<Rightarrow> nat \<Rightarrow> pystr" where
  "repr_char isprintable quote c =
     (if c = quote \<or> c = 92 then [92, c]
      else if c = 9 then [92, 116]
      else if c = 10 then [92, 110]
      else if c = 13 then [92, 114]
      else if c < 32 \<or> c = 127 then [92, 120] @ hex_digits 2 c
      else if c < 127 then [c]
      else if isprintable c then [c]
      else if c \<le> 0xFF then [92, 120] @ hex_digits 2 c
      else if c \<le> 0xFFFF then [92, 117] @ hex_digits 4 c
      else [92, 85] @ hex_digits 8 c)"

definition py_repr :: "(nat \<Rightarrow> bool) \<Rightarrow> pystr \<Rightarrow> pystr" where
  "py_repr isprintable s =
     (let quote = (if 39 \<in> set s \<and> 34 \<notin> set s then 34 else 39)
      in [quote] @ concat (map (repr_char isprintable quote) s) @ [quote])"

text \<open>
  \<open>list(ADAPTERS.keys())\<close> inside an f-string: the \<open>repr\<close> of a list of strings, which
  is the \<open>repr\<close> of each element, separated by a comma and a space, in brackets.
\<close>

fun join :: "pystr \<Rightarrow> pystr list \<Rightarrow> pystr" where
  "join sep [] = []"
| "join sep [x] = x"
| "join sep (x # y # ys) = x @ sep @ join sep (y # ys)"

definition repr_list :: "(nat \<Rightarrow> bool) \<Rightarrow> pystr list \<Rightarrow> pystr" where
  "repr_list isprintable xs = str ''['' @ join (str '', '') (map (py_repr isprintable) xs) @ str '']''"

text \<open>
  An identifier that \<open>repr\<close> only puts between two \<open>'\<close>: printable ASCII without
  \<open>'\<close> and backslash.
\<close>

definition plain_identifier :: "pystr \<Rightarrow> bool" where
  "plain_identifier s \<longleftrightarrow> (\<forall>c \<in> set s. 32 \<le> c \<and> c < 127 \<and> c \<noteq> 39 \<and> c \<noteq> 92)"

text \<open>
  \<open>get_adapter\<close> reads the module-level dict \<open>ADAPTERS\<close> from identifier to adapter
  class, here the association list \<open>ADAPTERS e\<close>; instantiating the class gives the
  adapter.
\<close>

definition get_adapter :: "env \<Rightarrow> pystr \<Rightarrow> exn + adapter" where
  "get_adapter e source =
     (case map_of (ADAPTERS e) source of
        None \<Rightarrow>
          Inl (ValueError (str ''Unknown source: '' @ source @ str ''. Available: ''
                           @ repr_list (unicode_isprintable e) (map fst (ADAPTERS e))))
      | Some a \<Rightarrow> Inr a)"

section \<open>main.py\<close>

text \<open>The exception carries the name of the missing file.\<close>

definition load_config :: "env \<Rightarrow> pystr \<Rightarrow> exn + target list" where
  "load_config e region =
     (case config_files e region of
        None \<Rightarrow> Inl (FileNotFoundError (region @ str ''.json''))
      | Some targets \<Rightarrow> Inr targets)"

definition get_target_config :: "env \<Rightarrow> pystr \<Rightarrow> pystr \<Rightarrow> exn + target" where
  "get_target_config e target_id region =
     (case load_config e region of
        Inl x \<Rightarrow> Inl x
      | Inr targets \<Rightarrow>
          (case find (\<lambda>t. t_id t = target_id) targets of
             Some t \<Rightarrow> Inr t
           | None \<Rightarrow>
               Inl (ValueError (str ''Target '' @ [39] @ target_id @ [39] @ str '' not found in ''
                                @ region @ str '' config''))))"

text \<open>
  The dict \<open>scrape_target\<close> returns: \<open>status\<close> and \<open>target\<close> are always present,
  the other keys depend on the status.
\<close>

record result =
  r_status :: pystr
  r_target :: pystr
  r_items :: "nat option"
  r_errors :: "nat option"
  r_error :: "pystr option"
  r_adapter :: "pystr option"

text \<open>
  \<open>item['text'][:200] + "..." if len(item['text']) > 200 else item['text']\<close>: the
  conditional expression binds weaker than \<open>+\<close>.
\<close>

definition generate_summary :: "pystr \<Rightarrow> pystr" where
  "generate_summary text_body =
     (if length text_body > 200 then take 200 text_body @ str ''...'' else text_body)"

text \<open>
  The body of the \<open>try\<close> in the loop over the items: categorize, summarize, compress,
  insert. \<open>Inl x\<close> is the exception that reaches the \<open>except Exception\<close> clause.
\<close>

definition process_item :: "env \<Rightarrow> nat \<Rightarrow> pystr \<Rightarrow> raw_item \<Rightarrow> db \<Rightarrow> (exn + unit) \<times> db" where
  "process_item e source_id adapter_name item d =
     (case categorize_content (str_lower e) CATEGORY_KEYWORDS (raw_title item) (raw_text item) of
        (item_category', tags) \<Rightarrow>
          (let summary = generate_summary (raw_text item) in
           case compress_text (lz4 e) (raw_text item) of
             Inl x \<Rightarrow> (Inl x, d)
           | Inr compressed_text \<Rightarrow>
               insert_item e source_id (raw_number item) (raw_title item) item_category' summary
                 compressed_text tags (raw_url item) adapter_name d))"

text \<open>\<open>for item in items: try: ... success_count += 1 except Exception: error_count += 1\<close>\<close>

fun process_items ::
  "env \<Rightarrow> nat \<Rightarrow> pystr \<Rightarrow> raw_item list \<Rightarrow> nat \<Rightarrow> nat \<Rightarrow> db \<Rightarrow> (nat \<times> nat) \<times> db" where
  "process_items e source_id adapter_name [] success_count error_count d =
     ((success_count, error_count), d)"
| "process_items e source_id adapter_name (item # items) success_count error_count d =
     (case process_item e source_id adapter_name item d of
        (Inr _, d') \<Rightarrow> process_items e source_id adapter_name items (success_count + 1) error_count d'
      | (Inl _, d') \<Rightarrow> process_items e source_id adapter_name items success_count (error_count + 1) d')"

text \<open>\<open>target.get('metadata', {})\<close> and \<open>target.get('source', 'example')\<close>\<close>

definition target_get_metadata :: "target \<Rightarrow> json" where
  "target_get_metadata target = (case t_metadata target of None \<Rightarrow> [] | Some m \<Rightarrow> m)"

definition target_get_source :: "target \<Rightarrow> pystr" where
  "target_get_source target = (case t_source target of None \<Rightarrow> str ''example'' | Some s \<Rightarrow> s)"

text \<open>
  \<open>scrape_target\<close>. The result is \<open>Inr\<close> of the returned dict, or \<open>Inl\<close> of an
  exception that leaves the function: only the call of \<open>get_adapter\<close> and the loop
  body are inside a \<open>try\<close>.
\<close>

definition scrape_target :: "env \<Rightarrow> pystr \<Rightarrow> bool \<Rightarrow> pystr \<Rightarrow> db \<Rightarrow> (exn + result) \<times> db" where
  "scrape_target e target_id force region d =
     (case get_target_config e target_id region of
        Inl x \<Rightarrow> (Inl x, d)
      | Inr target \<Rightarrow>
          (let target_name = t_name target;
               target_slug = t_slug target;
               category = t_category target;
               metadata = target_get_metadata target;
               source_url = t_url target;
               adapter_name = target_get_source target
           in
           case (if force then (Inr False, d) else source_exists e target_name d) of
             (Inl x, d1) \<Rightarrow> (Inl x, d1)
           | (Inr True, d1) \<Rightarrow>
               (case get_source_id e target_name d1 of
                  (Inl x, d2) \<Rightarrow> (Inl x, d2)
                | (Inr existing_id, d2) \<Rightarrow>
                    (case get_item_count e existing_id d2 of
                       (Inl x, d3) \<Rightarrow> (Inl x, d3)
                     | (Inr existing_count, d3) \<Rightarrow>
                         (Inr \<lparr>r_status = str ''skipped'', r_target = target_name,
                               r_items = Some existing_count, r_errors = None, r_error = None,
                               r_adapter = None\<rparr>, d3)))
           | (Inr False, d1) \<Rightarrow>
               (case get_adapter e adapter_name of
                  Inl (ValueError msg) \<Rightarrow>
                    (Inr \<lparr>r_status = str ''error'', r_target = target_name, r_items = None,
                          r_errors = None, r_error = Some msg, r_adapter = None\<rparr>, d1)
                | Inl x \<Rightarrow> (Inl x, d1)
                | Inr adapter \<Rightarrow>
                    if \<not> validate_url adapter source_url then
                      (Inr \<lparr>r_status = str ''error'', r_target = target_name, r_items = None,
                            r_errors = None, r_error = Some (str ''URL validation failed''),
                            r_adapter = None\<rparr>, d1)
                    else
                      (case extract_items adapter source_url target of
                         Inl x \<Rightarrow> (Inl x, d1)
                       | Inr items \<Rightarrow>
                           if items = [] then
                             (Inr \<lparr>r_status = str ''empty'', r_target = target_name,
                                   r_items = Some 0, r_errors = None, r_error = None,
                                   r_adapter = None\<rparr>, d1)
                           else
                             (case insert_source e target_name target_slug category metadata
                                     source_url adapter_name d1 of
                                (Inl x, d2) \<Rightarrow> (Inl x, d2)
                              | (Inr source_id, d2) \<Rightarrow>
                                  (case process_items e source_id adapter_name items 0 0 d2 of
                                     ((success_count, error_count), d3) \<Rightarrow>
                                       (Inr \<lparr>r_status = str ''success'', r_target = target_name,
                                             r_items = Some success_count,
                                             r_errors = Some error_count, r_error = None,
                                             r_adapter = Some adapter_name\<rparr>, d3)))))))"

section \<open>Conditions on a run\<close>

text \<open>
  The skip check \<open>not force and source_exists(target_name)\<close> lets the run go on:
  either \<open>force\<close> is set, and the database is not asked, or the database answers
  that no source has this name. \<open>after_check\<close> is the database after the check.
\<close>

definition not_skipped :: "env \<Rightarrow> bool \<Rightarrow> pystr \<Rightarrow> db \<Rightarrow> bool" where
  "not_skipped e force name d \<longleftrightarrow>
     force \<or> (db_fault e (calls d) = None \<and> (\<forall>r \<in> set (Source d). src_name r \<noteq> name))"

definition after_check :: "bool \<Rightarrow> db \<Rightarrow> db" where
  "after_check force d = (if force then d else d\<lparr>calls := Suc (calls d)\<rparr>)"

text \<open>
  The items of a run that fail, by cause: the text of the item has no UTF-8 encoding,
  so \<open>compress_text\<close> raises and the database is not called; or the database call of
  the item raises. \<open>t\<close> is the number of the next database call.
\<close>

fun failed_items :: "env \<Rightarrow> raw_item list \<Rightarrow> nat \<Rightarrow> raw_item list" where
  "failed_items e [] t = []"
| "failed_items e (item # items) t =
     (if \<not> scalar_values (raw_text item) then item # failed_items e items t
      else if db_fault e t \<noteq> None then item # failed_items e items (Suc t)
      else failed_items e items (Suc t))"

section \<open>A concrete environment\<close>

text \<open>
  An environment to run the model in: one configured target in region \<open>example\<close>, the
  shipped registry with the example adapter, the stored-frame codec, lower-casing and
  printability as on ASCII, a clock that ticks once per database call and ids drawn
  from the call number. The browser and the database faults are left as parameters.
\<close>

definition example_target :: target where
  "example_target =
     \<lparr>t_id = str ''target-1'', t_name = str ''Target A'', t_slug = str ''target-a'',
      t_category = str ''docs'', t_metadata = None, t_url = str ''https://example.com/a'',
      t_source = None\<rparr>"

definition example_env :: "(pystr \<Rightarrow> target \<Rightarrow> exn + raw_item list) \<Rightarrow> (nat \<Rightarrow> exn option) \<Rightarrow> env" where
  "example_env browse fault =
     \<lparr>config_files = (\<lambda>region. if region = str ''example'' then Some [example_target] else None),
      ADAPTERS = [(str ''example'', ExampleAdapter browse)],
      lz4 = stored_frame,
      str_lower = ascii_lower,
      unicode_isprintable = (\<lambda>c. 32 \<le> c \<and> c < 127),
      db_fault = fault,
      NOW = (\<lambda>t. 1000 + t),
      gen_random_uuid = (\<lambda>t. 7 * t + 1)\<rparr>"

definition empty_db :: db where
  "empty_db = \<lparr>Source = [], Item = [], calls = 0\<rparr>"

text \<open>The \<open>Source\<close> row the first scrape of the example target creates, and one of its items.\<close>

definition example_source_row :: source_row where
  "example_source_row =
     \<lparr>src_id = 1, src_createdAt = 1000, src_updatedAt = 1000, src_name = str ''Target A'',
      src_slug = str ''target-a'', src_category = str ''docs'', src_metadata = [],
      src_sourceUrl = str ''https://example.com/a'', src_adapter = str ''example'',
      src_lastScraped = 1000\<rparr>"

definition example_item_row :: item_row where
  "example_item_row =
     \<lparr>item_id = 8, item_sourceId = 1, item_number = str ''ITEM-1'', item_title = str ''Old title'',
      item_category = str ''general'', item_summary = str ''old'', item_tags = {},
      item_fullText = str ''b2xk'', item_sourceUrl = str ''https://example.com/a/1'',
      item_metadata = [(str ''adapter'', str ''example'')], item_scrapedAt = 1001\<rparr>"

text \<open>A database in which \<open>Target A\<close> has five items, and ten items as an adapter returns them.\<close>

definition example_items_db :: db where
  "example_items_db =
     \<lparr>Source = [example_source_row],
      Item = map (\<lambda>n. example_item_row\<lparr>item_id := n, item_number := str ''ITEM-'' @ [48 + n]\<rparr>) [1, 2, 3, 4, 5],
      calls = 6\<rparr>"

definition example_raw_items :: "raw_item list" where
  "example_raw_items =
     map (\<lambda>n. \<lparr>raw_number = str ''ITEM-'' @ [48 + n], raw_title = str ''Release notes'',
               raw_text = str ''What is new in this release'',
               raw_url = str ''https://example.com/a/'' @ [48 + n]\<rparr>) [0, 1, 2, 3, 4, 5, 6, 7, 8, 9]"

section \<open>The category loop keeps the first best category\<close>

lemma first_best_keep:
  assumes "first_best combined rest b m b' m'"
    and "category = str ''general'' \<or> length (matches combined kws) \<le> m"
  shows "first_best combined ((category, kws) # rest) b m b' m'"
proof -
  from assms(1) have le: "m \<le> m'"
    and ub: "\<forall>(c, ks) \<in> set rest. c \<noteq> str ''general'' \<longrightarrow> length (matches combined ks) \<le> m'"
    and d: "(b' = b \<and> m' = m) \<or>
      (\<exists>pre ks post. rest = pre @ (b', ks) # post \<and> b' \<noteq> str ''general'' \<and>
          length (matches combined ks) = m' \<and> m < m' \<and>
          (\<forall>(c, ks') \<in> set pre. c \<noteq> str ''general'' \<longrightarrow> length (matches combined ks') < m'))"
    unfolding first_best_def by blast+
  from assms(2) le have hd: "category \<noteq> str ''general'' \<longrightarrow> length (matches combined kws) \<le> m'"
    by auto
  from d show ?thesis
  proof
    assume "b' = b \<and> m' = m"
    with le ub hd show ?thesis unfolding first_best_def by simp
  next
    assume "\<exists>pre ks post. rest = pre @ (b', ks) # post \<and> b' \<noteq> str ''general'' \<and>
          length (matches combined ks) = m' \<and> m < m' \<and>
          (\<forall>(c, ks') \<in> set pre. c \<noteq> str ''general'' \<longrightarrow> length (matches combined ks') < m')"
    then obtain pre ks post where p: "rest = pre @ (b', ks) # post" "b' \<noteq> str ''general''"
      "length (matches combined ks) = m'" "m < m'"
      "\<forall>(c, ks') \<in> set pre. c \<noteq> str ''general'' \<longrightarrow> length (matches combined ks') < m'"
      by blast
    from assms(2) p(4) have "category \<noteq> str ''general'' \<longrightarrow> length (matches combined kws) < m'"
      by auto
    with p have "(category, kws) # rest = ((category, kws) # pre) @ (b', ks) # post \<and> b' \<noteq> str ''general'' \<and>
          length (matches combined ks) = m' \<and> m < m' \<and>
          (\<forall>(c, ks') \<in> set ((category, kws) # pre). c \<noteq> str ''general'' \<longrightarrow> length (matches combined ks') < m')"
      by simp
    then have "\<exists>pre ks post. (category, kws) # rest = pre @ (b', ks) # post \<and> b' \<noteq> str ''general'' \<and>
          length (matches combined ks) = m' \<and> m < m' \<and>
          (\<forall>(c, ks') \<in> set pre. c \<noteq> str ''general'' \<longrightarrow> length (matches combined ks') < m')"
      by blast
    with le ub hd show ?thesis unfolding first_best_def by simp
  qed
qed

lemma first_best_take:
  assumes "first_best combined rest category (length (matches combined kws)) b' m'"
    and "category \<noteq> str ''general''" and "m < length (matches combined kws)"
  shows "first_best combined ((category, kws) # rest) b m b' m'"
proof -
  let ?n = "length (matches combined kws)"
  from assms(1) have le: "?n \<le> m'"
    and ub: "\<forall>(c, ks) \<in> set rest. c \<noteq> str ''general'' \<longrightarrow> length (matches combined ks) \<le> m'"
    and d: "(b' = category \<and> m' = ?n) \<or>
      (\<exists>pre ks post. rest = pre @ (b', ks) # post \<and> b' \<noteq> str ''general'' \<and>
          length (matches combined ks) = m' \<and> ?n < m' \<and>
          (\<forall>(c, ks') \<in> set pre. c \<noteq> str ''general'' \<longrightarrow> length (matches combined ks') < m'))"
    unfolding first_best_def by blast+
  have "\<exists>pre ks post. (category, kws) # rest = pre @ (b', ks) # post \<and> b' \<noteq> str ''general'' \<and>
          length (matches combined ks) = m' \<and> m < m' \<and>
          (\<forall>(c, ks') \<in> set pre. c \<noteq> str ''general'' \<longrightarrow> length (matches combined ks') < m')"
    using d
  proof
    assume e: "b' = category \<and> m' = ?n"
    with assms(2,3) have "(category, kws) # rest = [] @ (b', kws) # rest \<and> b' \<noteq> str ''general'' \<and>
          length (matches combined kws) = m' \<and> m < m' \<and>
          (\<forall>(c, ks') \<in> set []. c \<noteq> str ''general'' \<longrightarrow> length (matches combined ks') < m')"
      by simp
    then show ?thesis by blast
  next
    assume "\<exists>pre ks post. rest = pre @ (b', ks) # post \<and> b' \<noteq> str ''general'' \<and>
          length (matches combined ks) = m' \<and> ?n < m' \<and>
          (\<forall>(c, ks') \<in> set pre. c \<noteq> str ''general'' \<longrightarrow> length (matches combined ks') < m')"
    then obtain pre ks post where p: "rest = pre @ (b', ks) # post" "b' \<noteq> str ''general''"
      "length (matches combined ks) = m'" "?n < m'"
      "\<forall>(c, ks') \<in> set pre. c \<noteq> str ''general'' \<longrightarrow> length (matches combined ks') < m'"
      by blast
    with assms(3) have "(category, kws) # rest = ((category, kws) # pre) @ (b', ks) # post \<and> b' \<noteq> str ''general'' \<and>
          length (matches combined ks) = m' \<and> m < m' \<and>
          (\<forall>(c, ks') \<in> set ((category, kws) # pre). c \<noteq> str ''general'' \<longrightarrow> length (matches combined ks') < m')"
      by simp
    then show ?thesis by blast
  qed
  moreover from le assms(3) have "m \<le> m'" by simp
  moreover from le ub have "\<forall>(c, ks) \<in> set ((category, kws) # rest). c \<noteq> str ''general'' \<longrightarrow> length (matches combined ks) \<le> m'"
    by simp
  ultimately show ?thesis unfolding first_best_def by blast
qed

lemma categorize_loop_first_best:
  "categorize_loop combined table b m t = (b', m', t') \<Longrightarrow> first_best combined table b m b' m'"
proof (induction combined table b m t arbitrary: b' m' t' rule: categorize_loop.induct)
  case (1 combined best_category max_matches tags)
  then show ?case by (simp add: first_best_def)
next
  case (2 combined category kws rest b m tags)
  let ?n = "length (matches combined kws)"
  show ?case
  proof (cases "category = str ''general''")
    case True
    with "2.prems" have r: "categorize_loop combined rest b m tags = (b', m', t')" by simp
    from "2.IH"(1)[OF True r] True show ?thesis by (simp add: first_best_keep)
  next
    case ng: False
    show ?thesis
    proof (cases "matches combined kws = []")
      case e: True
      with "2.prems" ng have r: "categorize_loop combined rest b m tags = (b', m', t')" by simp
      from e have "\<not> matches combined kws \<noteq> []" by simp
      from "2.IH"(4)[OF ng this r] e show ?thesis by (simp add: first_best_keep)
    next
      case ne: False
      show ?thesis
      proof (cases "?n > m")
        case True
        with "2.prems" ng ne have r: "categorize_loop combined rest category ?n (tags @ take 3 (matches combined kws)) = (b', m', t')"
          by simp
        from "2.IH"(2)[OF ng ne True r] ng True show ?thesis by (simp add: first_best_take)
      next
        case False
        with "2.prems" ng ne have r: "categorize_loop combined rest b m (tags @ take 3 (matches combined kws)) = (b', m', t')"
          by simp
        from "2.IH"(3)[OF ng ne False r] False show ?thesis by (simp add: first_best_keep)
      qed
    qed
  qed
qed


lemma split_cases:
  "p1 @ a # s1 = p2 @ b # s2 \<Longrightarrow> (p1 = p2 \<and> a = b \<and> s1 = s2) \<or> a \<in> set p2 \<or> b \<in> set p1"
proof (induction p1 arbitrary: p2)
  case Nil
  then show ?case by (cases p2) auto
next
  case (Cons x p1)
  show ?case
  proof (cases p2)
    case Nil
    with Cons.prems show ?thesis by auto
  next
    case (Cons y p2')
    with Cons.prems have "p1 @ a # s1 = p2' @ b # s2" and "x = y" by simp_all
    from Cons.IH[OF this(1)] \<open>x = y\<close> Cons show ?thesis by auto
  qed
qed

section \<open>Classification tie-break\<close>

text \<open>
  Claim C5. Let \<open>c1\<close> be declared before \<open>c2\<close> in the category table, both
  non-default, both matching the same nonzero number of keywords. The best category
  changes only on a strictly greater match count, so \<open>categorize_content\<close> never
  returns the later category \<open>c2\<close>: a later category with an equal count does not
  override the first-seen one. And when the two tie for the largest count (every
  category declared before \<open>c1\<close> matches strictly fewer keywords and no other category
  matches more), \<open>categorize_content\<close> returns \<open>c1\<close>, the one declared earlier.
\<close>

theorem categorize_content_tie_break:
  assumes dist: "distinct (map fst table)"
    and tab: "table = xs @ (c1, k1) # ys @ (c2, k2) # zs"
    and ng1: "c1 \<noteq> str ''general''" and ng2: "c2 \<noteq> str ''general''"
    and comb: "combined = lower (title @ str '' '' @ take 2000 text_body)"
    and tie: "length (matches combined k1) = length (matches combined k2)"
    and pos: "0 < length (matches combined k1)"
  shows "fst (categorize_content lower table title text_body) \<noteq> c2 \<and>
     ((\<forall>(c, ks) \<in> set xs. c \<noteq> str ''general'' \<longrightarrow> length (matches combined ks) < length (matches combined k1)) \<and>
      (\<forall>(c, ks) \<in> set (ys @ zs). c \<noteq> str ''general'' \<longrightarrow> length (matches combined ks) \<le> length (matches combined k1))
      \<longrightarrow> fst (categorize_content lower table title text_body) = c1)"
proof -
  let ?n = "length (matches combined k1)"
  obtain b' m' t' where r: "categorize_loop combined table (str ''general'') 0 [] = (b', m', t')"
    by (cases "categorize_loop combined table (str ''general'') 0 []") auto
  then have res: "fst (categorize_content lower table title text_body) = b'"
    by (simp add: categorize_content_def comb)
  from categorize_loop_first_best[OF r]
  have ub: "\<forall>(c, ks) \<in> set table. c \<noteq> str ''general'' \<longrightarrow> length (matches combined ks) \<le> m'"
    and d: "(b' = str ''general'' \<and> m' = 0) \<or>
      (\<exists>pre ks post. table = pre @ (b', ks) # post \<and> b' \<noteq> str ''general'' \<and>
          length (matches combined ks) = m' \<and> 0 < m' \<and>
          (\<forall>(c, ks') \<in> set pre. c \<noteq> str ''general'' \<longrightarrow> length (matches combined ks') < m'))"
    unfolding first_best_def by blast+
  from ub tab ng1 have n_le: "?n \<le> m'" by auto
  with pos d obtain pre ks post where p: "table = pre @ (b', ks) # post" "b' \<noteq> str ''general''"
      "length (matches combined ks) = m'"
      "\<forall>(c, ks') \<in> set pre. c \<noteq> str ''general'' \<longrightarrow> length (matches combined ks') < m'"
    by auto
  have one: "b' \<noteq> c2"
  proof
    assume e: "b' = c2"
    from p(1) tab e have "pre @ (c2, ks) # post = (xs @ (c1, k1) # ys) @ (c2, k2) # zs" by simp
    from split_cases[OF this]
    consider "pre = xs @ (c1, k1) # ys \<and> ks = k2" | "(c2, ks) \<in> set (xs @ (c1, k1) # ys)" | "(c2, k2) \<in> set pre"
      by auto
    then show False
    proof cases
      case 1
      then have "(c1, k1) \<in> set pre" by simp
      with p(4) ng1 have "?n < m'" by auto
      with 1 p(3) tie show False by simp
    next
      case 2
      then have "c2 \<in> fst ` set (xs @ (c1, k1) # ys)" by force
      moreover from dist tab have "distinct (map fst ((xs @ (c1, k1) # ys) @ (c2, k2) # zs))" by simp
      then have "c2 \<notin> fst ` set (xs @ (c1, k1) # ys)"
        unfolding map_append distinct_append by auto
      ultimately show False by simp
    next
      case 3
      then have "c2 \<in> fst ` set pre" by force
      moreover from dist p(1) e have "distinct (map fst (pre @ (c2, ks) # post))" by simp
      then have "c2 \<notin> fst ` set pre"
        unfolding map_append distinct_append by auto
      ultimately show False by simp
    qed
  qed
  have two: "b' = c1"
    if lt: "\<forall>(c, ks) \<in> set xs. c \<noteq> str ''general'' \<longrightarrow> length (matches combined ks) < ?n"
    and le: "\<forall>(c, ks) \<in> set (ys @ zs). c \<noteq> str ''general'' \<longrightarrow> length (matches combined ks) \<le> ?n"
  proof -
    have all_le: "\<forall>(c, ks) \<in> set table. c \<noteq> str ''general'' \<longrightarrow> length (matches combined ks) \<le> ?n"
      using lt le tie unfolding tab by auto
    from p(1) have "(b', ks) \<in> set table" by simp
    with all_le p(2) have "length (matches combined ks) \<le> ?n" by auto
    with p(3) n_le have m_eq: "m' = ?n" by simp
    from p(1) tab have "pre @ (b', ks) # post = xs @ (c1, k1) # (ys @ (c2, k2) # zs)" by simp
    from split_cases[OF this]
    consider "b' = c1" | "(b', ks) \<in> set xs" | "(c1, k1) \<in> set pre"
      by auto
    then show ?thesis
    proof cases
      case 1
      then show ?thesis .
    next
      case 2
      with lt p(2) have "length (matches combined ks) < ?n" by auto
      with p(3) m_eq show ?thesis by simp
    next
      case 3
      with p(4) ng1 have "?n < m'" by auto
      with m_eq show ?thesis by simp
    qed
  qed
  from one two res show ?thesis by simp
qed

text \<open>
  The theorem at the shipped table: \<open>news\<close> and \<open>product\<close> both match one keyword of
  the title \<open>News about the product\<close>, \<open>documentation\<close> matches none, and the earlier
  one, \<open>news\<close>, is returned.
\<close>

theorem categorize_content_tie_break_witness:
  "distinct (map fst CATEGORY_KEYWORDS) \<and>
   match_count ascii_lower CATEGORY_KEYWORDS (str ''News about the product'') [] (str ''news'') = 1 \<and>
   match_count ascii_lower CATEGORY_KEYWORDS (str ''News about the product'') [] (str ''product'') = 1 \<and>
   fst (categorize_content ascii_lower CATEGORY_KEYWORDS (str ''News about the product'') []) \<noteq> str ''product'' \<and>
   fst (categorize_content ascii_lower CATEGORY_KEYWORDS (str ''News about the product'') []) = str ''news''"
proof -
  let ?title = "str ''News about the product''"
  let ?combined = "ascii_lower (?title @ str '' '' @ take 2000 [])"
  let ?k1 = "map str [''news'', ''article'', ''update'', ''announcement'', ''press'', ''release'']"
  let ?k2 = "map str [''product'', ''feature'', ''pricing'', ''plan'', ''subscription'', ''service'']"
  let ?xs = "[(str ''documentation'', map str [''docs'', ''documentation'', ''guide'', ''tutorial'', ''manual'', ''reference''])]"
  let ?zs = "[(str ''support'', map str [''help'', ''support'', ''faq'', ''troubleshoot'', ''issue'', ''contact'']),
     (str ''legal'', map str [''terms'', ''privacy'', ''policy'', ''legal'', ''agreement'', ''disclaimer'']),
     (str ''general'', [])]"
  have dist: "distinct (map fst CATEGORY_KEYWORDS)" by code_simp
  have tab: "CATEGORY_KEYWORDS = ?xs @ (str ''news'', ?k1) # [] @ (str ''product'', ?k2) # ?zs"
    by (simp add: CATEGORY_KEYWORDS_def)
  have ng1: "str ''news'' \<noteq> str ''general''" by code_simp
  have ng2: "str ''product'' \<noteq> str ''general''" by code_simp
  have n1: "length (matches ?combined ?k1) = 1" by code_simp
  have n2: "length (matches ?combined ?k2) = 1" by code_simp
  have tie: "length (matches ?combined ?k1) = length (matches ?combined ?k2)"
    using n1 n2 by simp
  have pos: "0 < length (matches ?combined ?k1)" using n1 by simp
  have lt: "\<forall>(c, ks) \<in> set ?xs. c \<noteq> str ''general'' \<longrightarrow> length (matches ?combined ks) < length (matches ?combined ?k1)"
    unfolding n1 by code_simp
  have le: "\<forall>(c, ks) \<in> set ([] @ ?zs). c \<noteq> str ''general'' \<longrightarrow> length (matches ?combined ks) \<le> length (matches ?combined ?k1)"
    unfolding n1 by code_simp
  have m1: "match_count ascii_lower CATEGORY_KEYWORDS ?title [] (str ''news'') = 1" by code_simp
  have m2: "match_count ascii_lower CATEGORY_KEYWORDS ?title [] (str ''product'') = 1" by code_simp
  note tb = categorize_content_tie_break[where lower = ascii_lower and title = "?title" and text_body = "[]",
      OF dist tab ng1 ng2 refl tie pos]
  from tb have r1: "fst (categorize_content ascii_lower CATEGORY_KEYWORDS ?title []) \<noteq> str ''product''"
    by (rule conjunct1)
  from tb have "fst (categorize_content ascii_lower CATEGORY_KEYWORDS ?title []) = str ''news''"
    by (rule conjunct2[THEN mp]) (rule conjI[OF lt le])
  with r1 dist m1 m2 show ?thesis by (intro conjI)
qed

text \<open>
  A tie below the largest count decides nothing: in \<open>docs news product feature\<close> the
  categories \<open>documentation\<close> and \<open>news\<close> match one keyword each, and the result is
  \<open>product\<close>, which matches two.
\<close>

lemma categorize_content_larger_count_wins:
  "match_count ascii_lower CATEGORY_KEYWORDS (str ''docs news product feature'') [] (str ''documentation'') = 1 \<and>
   match_count ascii_lower CATEGORY_KEYWORDS (str ''docs news product feature'') [] (str ''news'') = 1 \<and>
   fst (categorize_content ascii_lower CATEGORY_KEYWORDS (str ''docs news product feature'') []) = str ''product''"
  by code_simp

section \<open>The upserts of \<open>core/db.py\<close>\<close>

lemma filter_key_unique:
  "distinct (map f xs) \<Longrightarrow> r \<in> set xs \<Longrightarrow> filter (\<lambda>x. f x = f r) xs = [r]"
proof (induction xs)
  case Nil
  then show ?case by simp
next
  case (Cons a xs)
  show ?case
  proof (cases "a = r")
    case True
    from Cons.prems(1) have "f a \<notin> f ` set xs" by simp
    then have "\<forall>x \<in> set xs. f x \<noteq> f a" by (metis imageI)
    then have "filter (\<lambda>x. f x = f a) xs = []" by (simp add: filter_empty_conv)
    with True show ?thesis by simp
  next
    case False
    with Cons.prems have "r \<in> set xs" "f a \<noteq> f r" by auto
    with Cons show ?thesis by simp
  qed
qed

lemma filter_map_same_key:
  "(\<And>x. f (g x) = f x) \<Longrightarrow> filter (\<lambda>x. P (f x)) (map g xs) = map g (filter (\<lambda>x. P (f x)) xs)"
  by (induction xs) auto

lemma find_Some_unique:
  "distinct (map f xs) \<Longrightarrow> r \<in> set xs \<Longrightarrow> find (\<lambda>x. f x = f r) xs = Some r"
proof (induction xs)
  case Nil
  then show ?case by simp
next
  case (Cons a xs)
  then show ?case by (cases "a = r") auto
qed

lemma insert_source_conflict:
  assumes u: "distinct (map src_name (Source d))" and r: "r \<in> set (Source d)" and n: "src_name r = name"
    and ok: "db_fault e (calls d) = None"
  shows "insert_source e name slug category metadata source_url adapter_name d =
           (Inr (src_id r),
            d\<lparr>calls := Suc (calls d),
              Source := map (\<lambda>x. if src_name x = name
                                  then x\<lparr>src_lastScraped := NOW e (calls d), src_updatedAt := NOW e (calls d)\<rparr>
                                  else x) (Source d)\<rparr>)"
proof -
  from find_Some_unique[OF u r] n have "find (\<lambda>x. src_name x = name) (Source d) = Some r" by simp
  with ok show ?thesis
    by (simp add: insert_source_def get_db_connection_def Let_def)
qed

text \<open>
  Claim C4. In a database with unique keys that already holds a \<open>Source\<close> row \<open>r\<close>
  with the given name, a call of \<open>insert_source\<close> with that name that reaches the
  database returns the id of \<open>r\<close>, whatever the other arguments are. Afterwards the
  rows with that name are \<open>r\<close> alone, with \<open>lastScraped\<close> and \<open>updatedAt\<close> set to
  the time of the call and every other column (slug, category, metadata, sourceUrl,
  adapter, id, createdAt) as before; the other \<open>Source\<close> rows and the \<open>Item\<close> table
  are unchanged.
\<close>

theorem insert_source_existing:
  assumes u: "unique_keys d" and r: "r \<in> set (Source d)" and n: "src_name r = name"
    and ok: "db_fault e (calls d) = None"
  shows "\<exists>d'. insert_source e name slug category metadata source_url adapter_name d = (Inr (src_id r), d') \<and>
     filter (\<lambda>x. src_name x = name) (Source d') =
       [r\<lparr>src_lastScraped := NOW e (calls d), src_updatedAt := NOW e (calls d)\<rparr>] \<and>
     filter (\<lambda>x. src_name x \<noteq> name) (Source d') = filter (\<lambda>x. src_name x \<noteq> name) (Source d) \<and>
     Item d' = Item d \<and> unique_keys d'"
proof -
  let ?upd = "\<lambda>x. if src_name x = name
                   then x\<lparr>src_lastScraped := NOW e (calls d), src_updatedAt := NOW e (calls d)\<rparr> else x"
  let ?d' = "d\<lparr>calls := Suc (calls d), Source := map ?upd (Source d)\<rparr>"
  from u have dn: "distinct (map src_name (Source d))" by (simp add: unique_keys_def)
  have key: "src_name (?upd x) = src_name x" for x by simp
  have run: "insert_source e name slug category metadata source_url adapter_name d = (Inr (src_id r), ?d')"
    by (rule insert_source_conflict[OF dn r n ok])
  have "filter (\<lambda>x. src_name x = name) (map ?upd (Source d)) = map ?upd (filter (\<lambda>x. src_name x = name) (Source d))"
    using filter_map_same_key[of src_name ?upd "\<lambda>k. k = name" "Source d"] key by simp
  also have "filter (\<lambda>x. src_name x = name) (Source d) = [r]"
    using filter_key_unique[OF dn r] n by simp
  finally have one: "filter (\<lambda>x. src_name x = name) (Source ?d') =
      [r\<lparr>src_lastScraped := NOW e (calls d), src_updatedAt := NOW e (calls d)\<rparr>]"
    using n by simp
  have "filter (\<lambda>x. src_name x \<noteq> name) (map ?upd (Source d)) = map ?upd (filter (\<lambda>x. src_name x \<noteq> name) (Source d))"
    using filter_map_same_key[of src_name ?upd "\<lambda>k. k \<noteq> name" "Source d"] key by simp
  also have "\<dots> = filter (\<lambda>x. src_name x \<noteq> name) (Source d)"
    by (rule map_idI) simp
  finally have others: "filter (\<lambda>x. src_name x \<noteq> name) (Source ?d') = filter (\<lambda>x. src_name x \<noteq> name) (Source d)"
    by simp
  have "map src_name (map ?upd (Source d)) = map src_name (Source d)"
    unfolding map_map by (rule map_cong[OF refl]) simp
  with dn have "distinct (map src_name (Source ?d'))" by (simp del: map_map)
  with u have uk: "unique_keys ?d'" by (simp add: unique_keys_def del: map_map)
  from run one others uk show ?thesis by (intro exI[of _ ?d']) simp
qed

text \<open>
  The first call for \<open>Target A\<close> into the empty database creates the row with id 1; a
  second call with the same name and different slug, category, metadata, URL and
  adapter returns 1 again and only refreshes the two timestamps.
\<close>

theorem insert_source_existing_witness:
  "insert_source (example_env (\<lambda>url t. Inr []) (\<lambda>t. None)) (str ''Target A'') (str ''target-a'')
      (str ''docs'') [] (str ''https://example.com/a'') (str ''example'') empty_db
     = (Inr 1, \<lparr>Source = [example_source_row], Item = [], calls = 1\<rparr>) \<and>
   unique_keys \<lparr>Source = [example_source_row], Item = [], calls = 1\<rparr> \<and>
   (\<exists>d'. insert_source (example_env (\<lambda>url t. Inr []) (\<lambda>t. None)) (str ''Target A'') (str ''renamed'')
            (str ''news'') [(str ''k'', str ''v'')] (str ''https://example.com/b'') (str ''other'')
            \<lparr>Source = [example_source_row], Item = [], calls = 1\<rparr> = (Inr 1, d') \<and>
         filter (\<lambda>x. src_name x = str ''Target A'') (Source d') =
           [example_source_row\<lparr>src_lastScraped := 1001, src_updatedAt := 1001\<rparr>] \<and>
         Item d' = [])"
proof -
  let ?e = "example_env (\<lambda>url t. Inr []) (\<lambda>t. None)"
  let ?d = "\<lparr>Source = [example_source_row], Item = [], calls = 1\<rparr>"
  have first: "insert_source ?e (str ''Target A'') (str ''target-a'') (str ''docs'') []
      (str ''https://example.com/a'') (str ''example'') empty_db = (Inr 1, ?d)"
    by (simp add: insert_source_def get_db_connection_def example_env_def empty_db_def
        example_source_row_def Let_def)
  have u: "unique_keys ?d" by (simp add: unique_keys_def)
  have r: "example_source_row \<in> set (Source ?d)" by simp
  have n: "src_name example_source_row = str ''Target A''" by (simp add: example_source_row_def)
  have ok: "db_fault ?e (calls ?d) = None" by (simp add: example_env_def)
  have now: "NOW ?e (calls ?d) = 1001" by (simp add: example_env_def)
  have i: "src_id example_source_row = 1" by (simp add: example_source_row_def)
  have it: "Item ?d = []" by simp
  note th = insert_source_existing[OF u r n ok, of "str ''renamed''" "str ''news''" "[(str ''k'', str ''v'')]"
      "str ''https://example.com/b''" "str ''other''", unfolded now i it]
  then obtain d' where a: "insert_source ?e (str ''Target A'') (str ''renamed'') (str ''news'') [(str ''k'', str ''v'')]
        (str ''https://example.com/b'') (str ''other'') ?d = (Inr 1, d')"
    and b: "filter (\<lambda>x. src_name x = str ''Target A'') (Source d') =
           [example_source_row\<lparr>src_lastScraped := 1001, src_updatedAt := 1001\<rparr>]"
    and c: "Item d' = []"
    by (elim exE conjE)
  show ?thesis
    apply (rule conjI[OF first])
    apply (rule conjI[OF u])
    apply (rule exI[of _ d'])
    apply (rule conjI[OF a])
    apply (rule conjI[OF b c])
    done
qed

lemma insert_item_conflict:
  assumes u: "distinct (map item_key (Item d))" and r: "r \<in> set (Item d)"
    and k: "item_key r = (source_id, number)" and ok: "db_fault e (calls d) = None"
  shows "insert_item e source_id number title category summary full_text_compressed tags source_url adapter_name d =
           (Inr (),
            d\<lparr>calls := Suc (calls d),
              Item := map (\<lambda>x. if item_key x = (source_id, number)
                                then x\<lparr>item_title := title, item_category := category,
                                       item_summary := summary, item_tags := tags,
                                       item_fullText := full_text_compressed,
                                       item_metadata := [(str ''adapter'', adapter_name)],
                                       item_scrapedAt := NOW e (calls d)\<rparr>
                                else x) (Item d)\<rparr>)"
proof -
  from r k have "\<exists>x \<in> set (Item d). item_key x = (source_id, number)" by blast
  with ok show ?thesis
    by (simp add: insert_item_def get_db_connection_def Let_def)
qed

lemma insert_item_fresh:
  assumes nk: "\<forall>x \<in> set (Item d). item_key x \<noteq> (source_id, number)" and ok: "db_fault e (calls d) = None"
  shows "insert_item e source_id number title category summary full_text_compressed tags source_url adapter_name d =
           (Inr (),
            d\<lparr>calls := Suc (calls d),
              Item := Item d @
                [\<lparr>item_id = gen_random_uuid e (calls d), item_sourceId = source_id, item_number = number,
                  item_title = title, item_category = category, item_summary = summary,
                  item_tags = tags, item_fullText = full_text_compressed,
                  item_sourceUrl = source_url, item_metadata = [(str ''adapter'', adapter_name)],
                  item_scrapedAt = NOW e (calls d)\<rparr>]\<rparr>)"
  using nk ok by (simp add: insert_item_def get_db_connection_def Let_def)

lemma item_key_update [simp]:
  "item_key (x\<lparr>item_title := a, item_category := b, item_summary := c, item_tags := t,
              item_fullText := f, item_metadata := m, item_scrapedAt := n\<rparr>) = item_key x"
  by (simp add: item_key_def)

text \<open>
  Claim C3. In a database with unique keys that already holds an \<open>Item\<close> row \<open>r\<close> for
  \<open>(source_id, number)\<close>, a call of \<open>insert_item\<close> for that pair that reaches the
  database leaves exactly one row for the pair: \<open>r\<close> with title, category, summary,
  tags, fullText and metadata replaced by the new values and scrapedAt by the time of
  the call. The rows of other pairs and the \<open>Source\<close> table are unchanged.
\<close>

theorem insert_item_existing:
  assumes u: "unique_keys d" and r: "r \<in> set (Item d)"
    and k: "item_sourceId r = source_id" "item_number r = number"
    and ok: "db_fault e (calls d) = None"
  shows "\<exists>d'. insert_item e source_id number title category summary full_text_compressed tags source_url adapter_name d
              = (Inr (), d') \<and>
     filter (\<lambda>x. item_key x = (source_id, number)) (Item d') =
       [r\<lparr>item_title := title, item_category := category, item_summary := summary, item_tags := tags,
          item_fullText := full_text_compressed, item_metadata := [(str ''adapter'', adapter_name)],
          item_scrapedAt := NOW e (calls d)\<rparr>] \<and>
     length (filter (\<lambda>x. item_key x = (source_id, number)) (Item d')) = 1 \<and>
     filter (\<lambda>x. item_key x \<noteq> (source_id, number)) (Item d') =
       filter (\<lambda>x. item_key x \<noteq> (source_id, number)) (Item d) \<and>
     Source d' = Source d \<and> unique_keys d'"
proof -
  let ?upd = "\<lambda>x. if item_key x = (source_id, number)
                   then x\<lparr>item_title := title, item_category := category,
                          item_summary := summary, item_tags := tags,
                          item_fullText := full_text_compressed,
                          item_metadata := [(str ''adapter'', adapter_name)],
                          item_scrapedAt := NOW e (calls d)\<rparr>
                   else x"
  let ?d' = "d\<lparr>calls := Suc (calls d), Item := map ?upd (Item d)\<rparr>"
  from u have di: "distinct (map item_key (Item d))" by (simp add: unique_keys_def)
  from k have kr: "item_key r = (source_id, number)" by (simp add: item_key_def)
  have key: "item_key (?upd x) = item_key x" for x by simp
  have run: "insert_item e source_id number title category summary full_text_compressed tags source_url adapter_name d
      = (Inr (), ?d')"
    by (rule insert_item_conflict[OF di r kr ok])
  have "filter (\<lambda>x. item_key x = (source_id, number)) (map ?upd (Item d))
      = map ?upd (filter (\<lambda>x. item_key x = (source_id, number)) (Item d))"
    using filter_map_same_key[of item_key ?upd "\<lambda>k. k = (source_id, number)" "Item d"] key by simp
  also have "filter (\<lambda>x. item_key x = (source_id, number)) (Item d) = [r]"
    using filter_key_unique[OF di r] kr by simp
  finally have one: "filter (\<lambda>x. item_key x = (source_id, number)) (Item ?d') =
       [r\<lparr>item_title := title, item_category := category, item_summary := summary, item_tags := tags,
          item_fullText := full_text_compressed, item_metadata := [(str ''adapter'', adapter_name)],
          item_scrapedAt := NOW e (calls d)\<rparr>]"
    using kr by simp
  have "filter (\<lambda>x. item_key x \<noteq> (source_id, number)) (map ?upd (Item d))
      = map ?upd (filter (\<lambda>x. item_key x \<noteq> (source_id, number)) (Item d))"
    using filter_map_same_key[of item_key ?upd "\<lambda>k. k \<noteq> (source_id, number)" "Item d"] key by simp
  also have "\<dots> = filter (\<lambda>x. item_key x \<noteq> (source_id, number)) (Item d)"
    by (rule map_idI) simp
  finally have others: "filter (\<lambda>x. item_key x \<noteq> (source_id, number)) (Item ?d') =
      filter (\<lambda>x. item_key x \<noteq> (source_id, number)) (Item d)"
    by simp
  have "map item_key (map ?upd (Item d)) = map item_key (Item d)"
    unfolding map_map by (rule map_cong[OF refl]) simp
  with di have "distinct (map item_key (Item ?d'))" by (simp del: map_map)
  with u have uk: "unique_keys ?d'" by (simp add: unique_keys_def del: map_map)
  from one have len: "length (filter (\<lambda>x. item_key x = (source_id, number)) (Item ?d')) = 1" by simp
  from run one len others uk show ?thesis by (intro exI[of _ ?d']) simp
qed

text \<open>
  Re-inserting \<open>ITEM-1\<close> of source 1 with a changed title: one row before, one row
  after, holding the new title.
\<close>

theorem insert_item_existing_witness:
  "unique_keys \<lparr>Source = [example_source_row], Item = [example_item_row], calls = 2\<rparr> \<and>
   length (filter (\<lambda>x. item_key x = (1, str ''ITEM-1''))
            (Item \<lparr>Source = [example_source_row], Item = [example_item_row], calls = 2\<rparr>)) = 1 \<and>
   (\<exists>d'. insert_item (example_env (\<lambda>url t. Inr []) (\<lambda>t. None)) 1 (str ''ITEM-1'') (str ''New title'')
            (str ''news'') (str ''new'') (str ''bmV3'') {str ''news''} (str ''https://example.com/a/1'')
            (str ''example'') \<lparr>Source = [example_source_row], Item = [example_item_row], calls = 2\<rparr>
           = (Inr (), d') \<and>
         filter (\<lambda>x. item_key x = (1, str ''ITEM-1'')) (Item d') =
           [example_item_row\<lparr>item_title := str ''New title'', item_category := str ''news'',
              item_summary := str ''new'', item_tags := {str ''news''}, item_fullText := str ''bmV3'',
              item_metadata := [(str ''adapter'', str ''example'')], item_scrapedAt := 1002\<rparr>] \<and>
         length (filter (\<lambda>x. item_key x = (1, str ''ITEM-1'')) (Item d')) = 1)"
proof -
  let ?e = "example_env (\<lambda>url t. Inr []) (\<lambda>t. None)"
  let ?d = "\<lparr>Source = [example_source_row], Item = [example_item_row], calls = 2\<rparr>"
  have u: "unique_keys ?d" by (simp add: unique_keys_def)
  have r: "example_item_row \<in> set (Item ?d)" by simp
  have k1: "item_sourceId example_item_row = 1" by (simp add: example_item_row_def)
  have k2: "item_number example_item_row = str ''ITEM-1''" by (simp add: example_item_row_def)
  have ok: "db_fault ?e (calls ?d) = None" by (simp add: example_env_def)
  have now: "NOW ?e (calls ?d) = 1002" by (simp add: example_env_def)
  have before: "length (filter (\<lambda>x. item_key x = (1, str ''ITEM-1'')) (Item ?d)) = 1"
    by (simp add: item_key_def k1 k2)
  note th = insert_item_existing[OF u r k1 k2 ok, of "str ''New title''" "str ''news''" "str ''new''" "str ''bmV3''"
      "{str ''news''}" "str ''https://example.com/a/1''" "str ''example''", unfolded now]
  then obtain d' where a: "insert_item ?e 1 (str ''ITEM-1'') (str ''New title'') (str ''news'') (str ''new'')
        (str ''bmV3'') {str ''news''} (str ''https://example.com/a/1'') (str ''example'') ?d = (Inr (), d')"
    and b: "filter (\<lambda>x. item_key x = (1, str ''ITEM-1'')) (Item d') =
           [example_item_row\<lparr>item_title := str ''New title'', item_category := str ''news'',
              item_summary := str ''new'', item_tags := {str ''news''}, item_fullText := str ''bmV3'',
              item_metadata := [(str ''adapter'', str ''example'')], item_scrapedAt := 1002\<rparr>]"
    and c: "length (filter (\<lambda>x. item_key x = (1, str ''ITEM-1'')) (Item d')) = 1"
    by (elim exE conjE)
  show ?thesis
    apply (rule conjI[OF u])
    apply (rule conjI[OF before])
    apply (rule exI[of _ d'])
    apply (rule conjI[OF a])
    apply (rule conjI[OF b c])
    done
qed

section \<open>The text codec is lossless\<close>

subsection \<open>UTF-8\<close>

lemma unat_byte_of: "n < 256 \<Longrightarrow> unat (byte_of n) = n"
  by (simp add: byte_of_def unat_of_nat)

lemma byte_of_unat: "byte_of (unat b) = b"
  by (simp add: byte_of_def)

lemma split64: "(n::nat) div 64 * 64 + n mod 64 = n"
  by simp

lemma split64_3: "(c::nat) div 4096 * 4096 + c div 64 mod 64 * 64 + c mod 64 = c"
proof -
  define m where "m = c div 64"
  define q where "q = m div 64"
  define r where "r = m mod 64"
  define s where "s = c mod 64"
  have 1: "q * 64 + r = m" unfolding q_def r_def by (rule split64)
  have 2: "m * 64 + s = c" unfolding m_def s_def by (rule split64)
  have 3: "c div 4096 = q" unfolding q_def m_def by (simp add: div_mult2_eq)
  from 1 2 have "q * 4096 + r * 64 + s = c" by arith
  then show ?thesis unfolding 3 unfolding r_def s_def m_def .
qed

lemma split64_4:
  "(c::nat) div 262144 * 262144 + c div 4096 mod 64 * 4096 + c div 64 mod 64 * 64 + c mod 64 = c"
proof -
  define m where "m = c div 4096"
  define q where "q = m div 64"
  define r where "r = m mod 64"
  define s where "s = c div 64 mod 64 * 64 + c mod 64"
  have 1: "q * 64 + r = m" unfolding q_def r_def by (rule split64)
  have 2: "m * 4096 + s = c" unfolding m_def s_def using split64_3[of c] by simp
  have 3: "c div 262144 = q" unfolding q_def m_def by (simp add: div_mult2_eq)
  from 1 2 have "q * 262144 + r * 4096 + s = c" by arith
  then show ?thesis unfolding 3 unfolding r_def s_def m_def by simp
qed

lemma div_bounds:
  fixes c :: nat
  shows "c < 0x800 \<Longrightarrow> c div 64 < 32"
    and "0x80 \<le> c \<Longrightarrow> 2 \<le> c div 64"
    and "c < 0x10000 \<Longrightarrow> c div 4096 < 16"
    and "0x800 \<le> c \<Longrightarrow> 0x800 \<le> c div 4096 * 4096 + c div 64 mod 64 * 64 + c mod 64"
    and "c < 0x110000 \<Longrightarrow> c div 262144 < 8"
  by (simp_all add: less_mult_imp_div_less split64_3 del: div_mult_mod_eq)

lemma utf8_char_roundtrip:
  assumes "c < 0x110000" and "\<not> (0xD800 \<le> c \<and> c \<le> 0xDFFF)"
  shows "\<exists>bs. utf8_encode_char c = Some bs \<and> bs \<noteq> [] \<and> (\<forall>rest. utf8_decode_char (bs @ rest) = Some (c, rest))"
proof -
  consider "c < 0x80" | "0x80 \<le> c" "c < 0x800" | "0x800 \<le> c" "c < 0x10000" | "0x10000 \<le> c"
    by linarith
  then show ?thesis
  proof cases
    case 1
    then show ?thesis by (simp add: utf8_encode_char_def unat_byte_of)
  next
    case 2
    then have q: "c div 64 < 32" "2 \<le> c div 64" by (simp_all add: div_bounds)
    then have a: "unat (byte_of (0xC0 + c div 64)) = 0xC0 + c div 64"
      and b: "unat (byte_of (0x80 + c mod 64)) = 0x80 + c mod 64"
      by (simp_all add: unat_byte_of)
    from 2 q show ?thesis
      by (simp add: utf8_encode_char_def a b is_continuation_def Let_def)
  next
    case 3
    then have q: "c div 4096 < 16" by (simp add: div_bounds)
    then have a: "unat (byte_of (0xE0 + c div 4096)) = 0xE0 + c div 4096"
      and b: "unat (byte_of (0x80 + c div 64 mod 64)) = 0x80 + c div 64 mod 64"
      and d: "unat (byte_of (0x80 + c mod 64)) = 0x80 + c mod 64"
      by (simp_all add: unat_byte_of)
    from 3 q assms(2) show ?thesis
      by (simp add: utf8_encode_char_def a b d is_continuation_def Let_def split64_3 del: div_mult_mod_eq)
  next
    case 4
    with assms(1) have q: "c div 262144 < 8" by (simp add: div_bounds)
    then have a: "unat (byte_of (0xF0 + c div 262144)) = 0xF0 + c div 262144"
      and b: "unat (byte_of (0x80 + c div 4096 mod 64)) = 0x80 + c div 4096 mod 64"
      and d: "unat (byte_of (0x80 + c div 64 mod 64)) = 0x80 + c div 64 mod 64"
      and f: "unat (byte_of (0x80 + c mod 64)) = 0x80 + c mod 64"
      by (simp_all add: unat_byte_of)
    from 4 q assms show ?thesis
      by (simp add: utf8_encode_char_def a b d f is_continuation_def Let_def split64_4 del: div_mult_mod_eq)
  qed
qed


lemma utf8_roundtrip:
  "scalar_values x \<Longrightarrow>
     \<exists>bs. utf8_encode x = Inr bs \<and> utf8_decode bs = Inr x \<and> (x \<noteq> [] \<longrightarrow> bs \<noteq> [])"
proof (induction x)
  case Nil
  then show ?case by simp
next
  case (Cons c x)
  then have c: "c < 0x110000" "\<not> (0xD800 \<le> c \<and> c \<le> 0xDFFF)" and x: "scalar_values x"
    by (simp_all add: scalar_values_def)
  from utf8_char_roundtrip[OF c] obtain cs where
    cs: "utf8_encode_char c = Some cs" "cs \<noteq> []" "\<And>rest. utf8_decode_char (cs @ rest) = Some (c, rest)"
    by blast
  from Cons.IH[OF x] obtain bs where bs: "utf8_encode x = Inr bs" "utf8_decode bs = Inr x"
    by blast
  from cs(2) obtain b cs' where s: "cs = b # cs'" by (cases cs) auto
  have "utf8_decode (cs @ bs) = Inr (c # x)"
    using cs(3)[of bs] bs(2) unfolding s by (simp del: utf8_decode_char.simps)
  with cs bs show ?case by simp
qed

lemma utf8_decode_ascii:
  "\<forall>b \<in> set bs. unat b < 0x80 \<Longrightarrow> utf8_decode bs = Inr (map unat bs)"
  by (induction bs) simp_all

lemma utf8_encode_ascii:
  "\<forall>b \<in> set bs. unat b < 0x80 \<Longrightarrow> utf8_encode (map unat bs) = Inr bs"
  by (induction bs) (simp_all add: utf8_encode_char_def byte_of_unat)

subsection \<open>Base64\<close>

lemma index_of_nth:
  "distinct xs \<Longrightarrow> i < length xs \<Longrightarrow> index_of (xs ! i) xs = Some i"
proof (induction xs arbitrary: i)
  case Nil
  then show ?case by simp
next
  case (Cons x xs)
  show ?case
  proof (cases i)
    case 0
    then show ?thesis by simp
  next
    case (Suc j)
    with Cons.prems have "j < length xs" "xs ! j \<noteq> x" "distinct xs" by auto
    with Cons.IH[of j] Suc show ?thesis by simp
  qed
qed

lemma b64_alphabet_length: "length b64_alphabet = 64"
  by (simp add: b64_alphabet_def)

lemma b64_alphabet_distinct: "distinct b64_alphabet"
  by (simp add: b64_alphabet_def byte_of_def)

lemma b64_alphabet_ascii: "\<forall>b \<in> set b64_alphabet. unat b < 0x80 \<and> b \<noteq> b64_pad"
  by (simp add: b64_alphabet_def byte_of_def b64_pad_def)

lemma b64_pad_ascii: "unat b64_pad < 0x80"
  by (simp add: b64_pad_def byte_of_def)

lemma b64_char_in: "b64_char i \<in> set b64_alphabet"
  unfolding b64_char_def by (rule nth_mem) (simp add: b64_alphabet_length)

lemma b64_char_ascii: "unat (b64_char i) < 0x80"
  using b64_alphabet_ascii b64_char_in by blast

lemma b64_char_not_pad: "b64_char i \<noteq> b64_pad"
  using b64_alphabet_ascii b64_char_in by blast

lemma b64_index_char: "i < 64 \<Longrightarrow> b64_index (b64_char i) = Some i"
  unfolding b64_index_def b64_char_def
  using index_of_nth[OF b64_alphabet_distinct, of i] by (simp add: b64_alphabet_length)


lemma b64_one_byte:
  fixes a :: nat
  assumes "a < 256"
  shows "a div 4 < 64" and "a mod 4 * 16 < 64" and "(a div 4 * 64 + a mod 4 * 16) div 16 = a"
proof -
  define q where "q = a div 4"
  define r where "r = a mod 4"
  have 1: "q * 4 + r = a" unfolding q_def r_def by simp
  have 2: "r < 4" unfolding r_def by simp
  from 1 assms show "a div 4 < 64" unfolding q_def[symmetric] by arith
  from 2 show "a mod 4 * 16 < 64" unfolding r_def[symmetric] by arith
  have "q * 64 + r * 16 = (q * 4 + r) * 16" by arith
  then have "(q * 64 + r * 16) div 16 = q * 4 + r" by simp
  with 1 show "(a div 4 * 64 + a mod 4 * 16) div 16 = a" unfolding q_def r_def by simp
qed

lemma b64_two_bytes:
  fixes a b :: nat
  assumes "a < 256" and "b < 256"
  defines "n \<equiv> a * 256 + b"
  defines "m \<equiv> n div 1024 * 4096 + n div 16 mod 64 * 64 + n mod 16 * 4"
  shows "n div 1024 < 64" and "n mod 16 * 4 < 64" and "m div 1024 = a" and "m div 4 mod 256 = b"
proof -
  define k where "k = n div 16"
  define q where "q = k div 64"
  define r where "r = k mod 64"
  define s where "s = n mod 16"
  have 1: "q * 64 + r = k" unfolding q_def r_def by simp
  have 2: "k * 16 + s = n" unfolding k_def s_def by simp
  have 3: "n div 1024 = q" unfolding q_def k_def by (simp add: div_mult2_eq)
  have s: "s < 16" unfolding s_def by simp
  have n: "n < 65536" unfolding n_def using assms(1,2) by arith
  from 1 2 n show "n div 1024 < 64" unfolding 3 by arith
  from s show "n mod 16 * 4 < 64" unfolding s_def[symmetric] by arith
  have "m = q * 4096 + r * 64 + s * 4" unfolding m_def 3 r_def s_def k_def by simp
  with 1 2 have m: "m = n * 4" by arith
  have "m div 1024 = n div 256" unfolding m by simp
  also have "\<dots> = a" unfolding n_def using assms(2) by simp
  finally show "m div 1024 = a" .
  have "m div 4 mod 256 = n mod 256" unfolding m by simp
  also have "\<dots> = b" unfolding n_def using assms(2) by simp
  finally show "m div 4 mod 256 = b" .
qed

lemma b64_three_bytes:
  fixes a b c :: nat
  assumes "a < 256" and "b < 256" and "c < 256"
  defines "n \<equiv> a * 65536 + b * 256 + c"
  shows "n div 262144 < 64" and "n div 65536 = a" and "n div 256 mod 256 = b" and "n mod 256 = c"
proof -
  have n: "n < 16777216" unfolding n_def using assms(1-3) by arith
  then show "n div 262144 < 64" by (simp add: less_mult_imp_div_less)
  have "n = a * 65536 + (b * 256 + c)" unfolding n_def by simp
  moreover have "b * 256 + c < 65536" using assms(2,3) by arith
  ultimately show "n div 65536 = a" by simp
  define k where "k = a * 256 + b"
  have "n = k * 256 + c" unfolding n_def k_def by arith
  then have "n div 256 = k" and nc: "n mod 256 = c" using assms(3) by simp_all
  moreover have "k mod 256 = b" unfolding k_def using assms(2) by simp
  ultimately show "n div 256 mod 256 = b" by simp
  from nc show "n mod 256 = c" .
qed


lemma unat_byte_bound: "unat (b :: byte) < 256"
  using unsigned_less[of b, where 'a = nat] by simp

lemma b64decode_pad2:
  "i0 < 64 \<Longrightarrow> i1 < 64 \<Longrightarrow>
     b64decode [b64_char i0, b64_char i1, b64_pad, b64_pad] = Inr [byte_of ((i0 * 64 + i1) div 16)]"
  by (simp add: b64_index_char)

lemma b64decode_pad1:
  "i0 < 64 \<Longrightarrow> i1 < 64 \<Longrightarrow> i2 < 64 \<Longrightarrow>
     b64decode [b64_char i0, b64_char i1, b64_char i2, b64_pad] =
       Inr [byte_of ((i0 * 4096 + i1 * 64 + i2) div 1024), byte_of ((i0 * 4096 + i1 * 64 + i2) div 4 mod 256)]"
  by (simp add: b64_index_char b64_char_not_pad Let_def)

lemma b64decode_group:
  "i0 < 64 \<Longrightarrow> i1 < 64 \<Longrightarrow> i2 < 64 \<Longrightarrow> i3 < 64 \<Longrightarrow> b64decode rest = Inr bs \<Longrightarrow>
     b64decode (b64_char i0 # b64_char i1 # b64_char i2 # b64_char i3 # rest) =
       Inr (byte_of ((i0 * 262144 + i1 * 4096 + i2 * 64 + i3) div 65536)
            # byte_of ((i0 * 262144 + i1 * 4096 + i2 * 64 + i3) div 256 mod 256)
            # byte_of ((i0 * 262144 + i1 * 4096 + i2 * 64 + i3) mod 256) # bs)"
  by (simp add: b64_index_char b64_char_not_pad Let_def)

lemma b64_roundtrip: "b64decode (b64encode bs) = Inr bs"
proof (induction bs rule: b64encode.induct)
  case 1
  show ?case by simp
next
  case (2 a)
  note f = b64_one_byte[OF unat_byte_bound[of a]]
  have "b64decode (b64encode [a]) = Inr [byte_of ((unat a div 4 * 64 + unat a mod 4 * 16) div 16)]"
    unfolding b64encode.simps by (rule b64decode_pad2[OF f(1) f(2)])
  then show ?case by (simp only: f(3) byte_of_unat)
next
  case (3 a b)
  note f = b64_two_bytes[OF unat_byte_bound[of a] unat_byte_bound[of b]]
  let ?n = "unat a * 256 + unat b"
  let ?m = "?n div 1024 * 4096 + ?n div 16 mod 64 * 64 + ?n mod 16 * 4"
  have k: "?n div 16 mod 64 < 64" by simp
  have "b64decode (b64encode [a, b]) = Inr [byte_of (?m div 1024), byte_of (?m div 4 mod 256)]"
    unfolding b64encode.simps Let_def by (rule b64decode_pad1[OF f(1) k f(2)])
  then show ?case by (simp only: f(3) f(4) byte_of_unat)
next
  case (4 a b c rest)
  note f = b64_three_bytes[OF unat_byte_bound[of a] unat_byte_bound[of b] unat_byte_bound[of c]]
  let ?n = "unat a * 65536 + unat b * 256 + unat c"
  let ?m = "?n div 262144 * 262144 + ?n div 4096 mod 64 * 4096 + ?n div 64 mod 64 * 64 + ?n mod 64"
  have k: "?n div 4096 mod 64 < 64" "?n div 64 mod 64 < 64" "?n mod 64 < 64" by simp_all
  have m: "?m = ?n" by (rule split64_4)
  have "b64decode (b64encode (a # b # c # rest)) =
      Inr (byte_of (?m div 65536) # byte_of (?m div 256 mod 256) # byte_of (?m mod 256) # rest)"
    unfolding b64encode.simps Let_def append_Cons append_Nil
    by (rule b64decode_group[OF f(1) k "4.IH"[OF refl]])
  then show ?case by (simp only: m f(2) f(3) f(4) byte_of_unat)
qed

lemma b64encode_ascii: "\<forall>b \<in> set (b64encode bs). unat b < 0x80"
  by (induction bs rule: b64encode.induct) (simp_all add: Let_def b64_char_ascii b64_pad_ascii)

lemma b64encode_nonempty: "bs \<noteq> [] \<Longrightarrow> b64encode bs \<noteq> []"
  by (induction bs rule: b64encode.induct) (simp_all add: Let_def)

subsection \<open>\<open>decompress_text\<close> after \<open>compress_text\<close>\<close>

lemma compress_text_scalar:
  assumes "scalar_values x" and "x \<noteq> []"
  shows "\<exists>bs. utf8_encode x = Inr bs \<and> utf8_decode bs = Inr x \<and>
           compress_text z x = Inr (map unat (b64encode (lz4_compress z bs)))"
proof -
  from utf8_roundtrip[OF assms(1)] obtain bs where
    bs: "utf8_encode x = Inr bs" "utf8_decode bs = Inr x" by blast
  have "utf8_decode (b64encode (lz4_compress z bs)) = Inr (map unat (b64encode (lz4_compress z bs)))"
    by (rule utf8_decode_ascii[OF b64encode_ascii])
  with bs assms(2) show ?thesis by (simp add: compress_text_def)
qed

lemma utf8_encode_not_scalar:
  "\<not> scalar_values x \<Longrightarrow> utf8_encode x = Inl UnicodeEncodeError"
proof (induction x)
  case Nil
  then show ?case by (simp add: scalar_values_def)
next
  case (Cons c x)
  show ?case
  proof (cases "c < 0x110000 \<and> \<not> (0xD800 \<le> c \<and> c \<le> 0xDFFF)")
    case True
    with Cons.prems have "\<not> scalar_values x" by (simp add: scalar_values_def)
    from Cons.IH[OF this] show ?thesis by (simp split: option.split)
  next
    case False
    then have "utf8_encode_char c = None" by (auto simp: utf8_encode_char_def)
    then show ?thesis by simp
  qed
qed

lemma compress_text_raises_iff:
  "isl (compress_text z x) \<longleftrightarrow> \<not> scalar_values x"
proof (cases "scalar_values x")
  case True
  show ?thesis
  proof (cases "x = []")
    case True
    then show ?thesis by (simp add: compress_text_def scalar_values_def)
  next
    case False
    from compress_text_scalar[OF True False, of z] True show ?thesis by auto
  qed
next
  case False
  then have "x \<noteq> []" by (auto simp: scalar_values_def)
  with utf8_encode_not_scalar[OF False] False show ?thesis by (simp add: compress_text_def)
qed

lemma stored_frame_lossless: "lz4_lossless stored_frame"
  by (simp add: lz4_lossless_def stored_frame_def)


text \<open>
  Claim C1, as amended. For every text \<open>x\<close> whose code points are Unicode scalar
  values (so every text that has a UTF-8 encoding: empty, ASCII or multi-byte), and an
  \<open>lz4.frame\<close> that is lossless, \<open>compress_text x\<close> returns a string \<open>y\<close> and
  \<open>decompress_text y\<close> returns \<open>x\<close>. On the empty string both functions return the
  empty string.
\<close>

theorem compress_text_roundtrip:
  assumes "lz4_lossless z" and "scalar_values x"
  shows "(\<exists>y. compress_text z x = Inr y \<and> decompress_text z y = Inr x) \<and>
         compress_text z [] = Inr [] \<and> decompress_text z [] = Inr []"
proof -
  have empty: "compress_text z [] = Inr []" "decompress_text z [] = Inr []"
    by (simp_all add: compress_text_def decompress_text_def)
  have "\<exists>y. compress_text z x = Inr y \<and> decompress_text z y = Inr x"
  proof (cases "x = []")
    case True
    with empty show ?thesis by simp
  next
    case False
    from compress_text_scalar[OF assms(2) False, of z] obtain bs where
      bs: "utf8_encode x = Inr bs" "utf8_decode bs = Inr x"
      and c: "compress_text z x = Inr (map unat (b64encode (lz4_compress z bs)))"
      by blast
    let ?frame = "lz4_compress z bs"
    let ?y = "map unat (b64encode ?frame)"
    from assms(1) have frame: "lz4_decompress z ?frame = Inr bs" "?frame \<noteq> []"
      by (simp_all add: lz4_lossless_def)
    from b64encode_nonempty[OF frame(2)] have ne: "?y \<noteq> []" by simp
    have enc: "utf8_encode ?y = Inr (b64encode ?frame)"
      by (rule utf8_encode_ascii[OF b64encode_ascii])
    have "decompress_text z ?y = Inr x"
      using ne by (simp add: decompress_text_def enc b64_roundtrip frame(1) bs(2))
    with c show ?thesis by blast
  qed
  with empty show ?thesis by simp
qed


text \<open>The theorem at the four code points of \<open>h\<close>, e-acute, the euro sign and an emoji,
  which take one, two, three and four bytes.\<close>

theorem compress_text_roundtrip_witness:
  "lz4_lossless stored_frame \<and> scalar_values [0x68, 0xE9, 0x20AC, 0x1F600] \<and>
   (\<exists>y. compress_text stored_frame [0x68, 0xE9, 0x20AC, 0x1F600] = Inr y \<and>
        decompress_text stored_frame y = Inr [0x68, 0xE9, 0x20AC, 0x1F600])"
proof -
  have s: "scalar_values [0x68, 0xE9, 0x20AC, 0x1F600]" by (simp add: scalar_values_def)
  note rt = compress_text_roundtrip[OF stored_frame_lossless s, THEN conjunct1]
  show ?thesis
    apply (rule conjI[OF stored_frame_lossless])
    apply (rule conjI[OF s])
    apply (rule rt)
    done
qed


text \<open>
  Claim C1 as stated, for every text, fails: a Python \<open>str\<close> may hold a lone
  surrogate, and for the one-character string U+D800 the call \<open>text.encode('utf-8')\<close> in
  \<open>compress_text\<close> raises \<open>UnicodeEncodeError\<close>, before the codec is reached, so
  nothing is returned that could be decompressed.
\<close>

theorem compress_text_surrogate_counterexample:
  "compress_text stored_frame [0xD800] = Inl UnicodeEncodeError"
  by (simp add: compress_text_def utf8_encode_char_def)

section \<open>The paths through \<open>scrape_target\<close>\<close>

subsection \<open>The skip check\<close>

lemma source_exists_ok:
  "db_fault e (calls d) = None \<Longrightarrow>
     source_exists e name d = (Inr (\<exists>r \<in> set (Source d). src_name r = name), d\<lparr>calls := Suc (calls d)\<rparr>)"
  by (auto simp: source_exists_def get_db_connection_def find_None_iff)

lemma get_source_id_ok:
  "db_fault e (calls d) = None \<Longrightarrow>
     get_source_id e name d =
       (Inr (map_option src_id (find (\<lambda>r. src_name r = name) (Source d))), d\<lparr>calls := Suc (calls d)\<rparr>)"
  by (simp add: get_source_id_def get_db_connection_def)

lemma get_item_count_ok:
  "db_fault e (calls d) = None \<Longrightarrow>
     get_item_count e sid d =
       (Inr (length (filter (\<lambda>r. Some (item_sourceId r) = sid) (Item d))), d\<lparr>calls := Suc (calls d)\<rparr>)"
  by (simp add: get_item_count_def get_db_connection_def)

lemma skip_check_passes:
  "not_skipped e force name d \<Longrightarrow>
     (if force then (Inr False, d) else source_exists e name d) = (Inr False, after_check force d)"
  by (auto simp: not_skipped_def after_check_def source_exists_ok)

lemma after_check_tables [simp]:
  "Source (after_check force d) = Source d" "Item (after_check force d) = Item d"
  "calls (after_check force d) = calls d + (if force then 0 else 1)"
  by (simp_all add: after_check_def)

lemma py_in_append: "py_in kw (pre @ kw @ post)"
proof (induction pre)
  case Nil
  show ?case
  proof (cases "kw @ post")
    case Nil
    then show ?thesis by simp
  next
    case (Cons c cs)
    have "take (length kw) (kw @ post) = kw" by simp
    with Cons show ?thesis by simp
  qed
next
  case (Cons p ps)
  then show ?case by simp
qed

lemma example_env_config:
  "get_target_config (example_env browse fault) (str ''target-1'') (str ''example'') = Inr example_target"
  by (simp add: get_target_config_def load_config_def example_env_def example_target_def)

lemma example_env_adapter:
  "get_adapter (example_env browse fault) (target_get_source example_target)
     = Inr (ExampleAdapter browse)"
  by (simp add: get_adapter_def example_env_def target_get_source_def example_target_def)

lemma example_env_url: "validate_url (ExampleAdapter browse) (t_url example_target)"
proof -
  have "str ''https://example.com/a'' = str ''https://'' @ str ''example.com'' @ str ''/a''"
    by (simp add: str_def)
  then have "py_in (str ''example.com'') (str ''https://example.com/a'')"
    by (simp only: py_in_append)
  then show ?thesis by (simp add: ExampleAdapter_def example_target_def)
qed

text \<open>
  Claim C7. The target is configured, a \<open>Source\<close> row \<open>r\<close> with its name exists,
  \<open>force\<close> is false and the three database reads go through. Then \<open>scrape_target\<close>
  returns status \<open>skipped\<close> with the number of \<open>Item\<close> rows of the source \<open>r\<close>; the
  database is as before except for the count of calls, which shows three calls, the
  reads \<open>source_exists\<close>, \<open>get_source_id\<close> and \<open>get_item_count\<close>, so no write was made.
  The outcome is the same whatever the registry of adapters is: no adapter is resolved
  or invoked.
\<close>

theorem scrape_target_skipped:
  assumes cfg: "get_target_config e target_id region = Inr target"
    and u: "unique_keys d" and r: "r \<in> set (Source d)" "src_name r = t_name target"
    and ok: "db_fault e (calls d) = None" "db_fault e (calls d + 1) = None" "db_fault e (calls d + 2) = None"
  shows "scrape_target e target_id False region d =
           (Inr \<lparr>r_status = str ''skipped'', r_target = t_name target,
                 r_items = Some (length (filter (\<lambda>i. item_sourceId i = src_id r) (Item d))),
                 r_errors = None, r_error = None, r_adapter = None\<rparr>,
            d\<lparr>calls := calls d + 3\<rparr>) \<and>
         scrape_target (e\<lparr>ADAPTERS := registry\<rparr>) target_id False region d =
           scrape_target e target_id False region d"
proof -
  have run: "scrape_target e' target_id False region d =
           (Inr \<lparr>r_status = str ''skipped'', r_target = t_name target,
                 r_items = Some (length (filter (\<lambda>i. item_sourceId i = src_id r) (Item d))),
                 r_errors = None, r_error = None, r_adapter = None\<rparr>,
            d\<lparr>calls := calls d + 3\<rparr>)"
    if cfg': "get_target_config e' target_id region = Inr target"
      and ok': "db_fault e' (calls d) = None" "db_fault e' (calls d + 1) = None" "db_fault e' (calls d + 2) = None"
    for e'
  proof -
    from u have dn: "distinct (map src_name (Source d))" by (simp add: unique_keys_def)
    from r have ex: "\<exists>x \<in> set (Source d). src_name x = t_name target" by blast
    have f: "find (\<lambda>x. src_name x = t_name target) (Source d) = Some r"
      using find_Some_unique[OF dn r(1)] r(2) by simp
    let ?d1 = "d\<lparr>calls := Suc (calls d)\<rparr>"
    let ?d2 = "d\<lparr>calls := Suc (Suc (calls d))\<rparr>"
    have s1: "source_exists e' (t_name target) d = (Inr True, ?d1)"
      using source_exists_ok[OF ok'(1)] ex by simp
    have s2: "get_source_id e' (t_name target) ?d1 = (Inr (Some (src_id r)), ?d2)"
      using get_source_id_ok[of e' ?d1 "t_name target"] ok'(2) f by simp
    have s3: "get_item_count e' (Some (src_id r)) ?d2 =
        (Inr (length (filter (\<lambda>i. item_sourceId i = src_id r) (Item d))), d\<lparr>calls := calls d + 3\<rparr>)"
      using get_item_count_ok[of e' ?d2 "Some (src_id r)"] ok'(3) by simp
    show ?thesis
      by (simp add: scrape_target_def cfg' Let_def s1 s2 s3)
  qed
  have cfg2: "get_target_config (e\<lparr>ADAPTERS := registry\<rparr>) target_id region = Inr target"
    using cfg by (simp add: get_target_config_def load_config_def)
  from run[OF cfg ok] run[OF cfg2] ok show ?thesis by simp
qed

text \<open>
  \<open>Target A\<close> exists with five items: the run without \<open>force\<close> is skipped and reports 5.
\<close>

theorem scrape_target_skipped_witness:
  "get_target_config (example_env (\<lambda>url t. Inr []) (\<lambda>t. None)) (str ''target-1'') (str ''example'')
     = Inr example_target \<and>
   unique_keys example_items_db \<and>
   example_source_row \<in> set (Source example_items_db) \<and>
   src_name example_source_row = t_name example_target \<and>
   scrape_target (example_env (\<lambda>url t. Inr []) (\<lambda>t. None)) (str ''target-1'') False (str ''example'')
       example_items_db
     = (Inr \<lparr>r_status = str ''skipped'', r_target = str ''Target A'', r_items = Some 5,
             r_errors = None, r_error = None, r_adapter = None\<rparr>,
        example_items_db\<lparr>calls := 9\<rparr>)"
proof -
  let ?b = "\<lambda>(url :: pystr) (t :: target). (Inr [] :: exn + raw_item list)"
  let ?e = "example_env ?b (\<lambda>t. None)"
  have u: "unique_keys example_items_db"
    by (simp add: unique_keys_def example_items_db_def item_key_def)
  have r: "example_source_row \<in> set (Source example_items_db)"
    by (simp add: example_items_db_def)
  have n: "src_name example_source_row = t_name example_target"
    by (simp add: example_source_row_def example_target_def)
  have ok: "db_fault ?e (calls example_items_db) = None"
    "db_fault ?e (calls example_items_db + 1) = None" "db_fault ?e (calls example_items_db + 2) = None"
    by (simp_all add: example_env_def)
  have five: "length (filter (\<lambda>i. item_sourceId i = src_id example_source_row) (Item example_items_db)) = 5"
    by (simp add: example_items_db_def example_item_row_def example_source_row_def)
  have c: "calls example_items_db + 3 = 9" by (simp add: example_items_db_def)
  have t: "t_name example_target = str ''Target A''" by (simp add: example_target_def)
  note th = scrape_target_skipped[OF example_env_config u r n ok, THEN conjunct1, unfolded five c t]
  show ?thesis
    apply (rule conjI[OF example_env_config])
    apply (rule conjI[OF u])
    apply (rule conjI[OF r])
    apply (rule conjI[OF n])
    apply (rule th)
    done
qed

subsection \<open>Extraction\<close>

text \<open>
  Once the skip check has let the run go on and the adapter has accepted the URL,
  \<open>scrape_target\<close> is decided by what \<open>extract_items\<close> does.
\<close>

lemma scrape_target_with_adapter:
  assumes cfg: "get_target_config e target_id region = Inr target"
    and ns: "not_skipped e force (t_name target) d"
    and ad: "get_adapter e (target_get_source target) = Inr a"
    and url: "validate_url a (t_url target)"
  shows "scrape_target e target_id force region d =
     (case extract_items a (t_url target) target of
        Inl x \<Rightarrow> (Inl x, after_check force d)
      | Inr items \<Rightarrow>
          if items = [] then
            (Inr \<lparr>r_status = str ''empty'', r_target = t_name target, r_items = Some 0,
                  r_errors = None, r_error = None, r_adapter = None\<rparr>, after_check force d)
          else
            (case insert_source e (t_name target) (t_slug target) (t_category target)
                    (target_get_metadata target) (t_url target) (target_get_source target)
                    (after_check force d) of
               (Inl x, d2) \<Rightarrow> (Inl x, d2)
             | (Inr source_id, d2) \<Rightarrow>
                 (case process_items e source_id (target_get_source target) items 0 0 d2 of
                    ((success_count, error_count), d3) \<Rightarrow>
                      (Inr \<lparr>r_status = str ''success'', r_target = t_name target,
                            r_items = Some success_count, r_errors = Some error_count,
                            r_error = None, r_adapter = Some (target_get_source target)\<rparr>, d3))))"
  using skip_check_passes[OF ns] url
  by (simp add: scrape_target_def cfg Let_def ad)

text \<open>
  Claim C10. When the adapter returns an empty list, \<open>scrape_target\<close> returns status
  \<open>empty\<close> with 0 items. Both tables are as before, and the count of database calls has
  grown only by the \<open>source_exists\<close> call of the skip check (none under \<open>force\<close>):
  neither \<open>insert_source\<close> nor \<open>insert_item\<close> was called.
\<close>

theorem scrape_target_empty:
  assumes cfg: "get_target_config e target_id region = Inr target"
    and ns: "not_skipped e force (t_name target) d"
    and ad: "get_adapter e (target_get_source target) = Inr a"
    and url: "validate_url a (t_url target)"
    and ex: "extract_items a (t_url target) target = Inr []"
  shows "\<exists>d'. scrape_target e target_id force region d =
           (Inr \<lparr>r_status = str ''empty'', r_target = t_name target, r_items = Some 0,
                 r_errors = None, r_error = None, r_adapter = None\<rparr>, d') \<and>
         Source d' = Source d \<and> Item d' = Item d \<and>
         calls d' = calls d + (if force then 0 else 1)"
  using scrape_target_with_adapter[OF cfg ns ad url] ex
  by (intro exI[of _ "after_check force d"]) simp

text \<open>
  The example adapter finds nothing on the page: status \<open>empty\<close>, one database call.
\<close>

theorem scrape_target_empty_witness:
  "get_target_config (example_env (\<lambda>url t. Inr []) (\<lambda>t. None)) (str ''target-1'') (str ''example'')
     = Inr example_target \<and>
   not_skipped (example_env (\<lambda>url t. Inr []) (\<lambda>t. None)) False (t_name example_target) empty_db \<and>
   (\<exists>d'. scrape_target (example_env (\<lambda>url t. Inr []) (\<lambda>t. None)) (str ''target-1'') False (str ''example'')
            empty_db
          = (Inr \<lparr>r_status = str ''empty'', r_target = t_name example_target, r_items = Some 0,
                  r_errors = None, r_error = None, r_adapter = None\<rparr>, d') \<and>
        Source d' = Source empty_db \<and> Item d' = Item empty_db \<and>
        calls d' = calls empty_db + (if False then 0 else 1))"
proof -
  let ?b = "\<lambda>(url :: pystr) (t :: target). (Inr [] :: exn + raw_item list)"
  let ?e = "example_env ?b (\<lambda>t. None)"
  have ns: "not_skipped ?e False (t_name example_target) empty_db"
    by (simp add: not_skipped_def example_env_def empty_db_def)
  have ex: "extract_items (ExampleAdapter ?b) (t_url example_target) example_target = Inr []"
    by (simp add: ExampleAdapter_def)
  note th = scrape_target_empty[OF example_env_config ns example_env_adapter example_env_url ex]
  show ?thesis
    apply (rule conjI[OF example_env_config])
    apply (rule conjI[OF ns])
    apply (rule th)
    done
qed

text \<open>
  Claim C2, as amended. When \<open>extract_items\<close> raises, \<open>scrape_target\<close> returns no
  result: the call of \<open>extract_items\<close> is outside any \<open>try\<close>, and the exception leaves
  \<open>scrape_target\<close> unchanged (in \<open>main\<close> the caller logs it as fatal and exits
  with status 1). Nothing has been persisted at that point: both tables are as before.
\<close>

theorem scrape_target_extract_raises:
  assumes cfg: "get_target_config e target_id region = Inr target"
    and ns: "not_skipped e force (t_name target) d"
    and ad: "get_adapter e (target_get_source target) = Inr a"
    and url: "validate_url a (t_url target)"
    and ex: "extract_items a (t_url target) target = Inl x"
  shows "\<exists>d'. scrape_target e target_id force region d = (Inl x, d') \<and>
         Source d' = Source d \<and> Item d' = Item d"
  using scrape_target_with_adapter[OF cfg ns ad url] ex
  by (intro exI[of _ "after_check force d"]) simp

text \<open>
  The browser times out in a run that is not forced: the \<open>TimeoutError\<close> is what comes
  out of \<open>scrape_target\<close>.
\<close>

theorem scrape_target_extract_raises_witness:
  "get_target_config (example_env (\<lambda>url t. Inl (TimeoutError (str ''Timeout 60000ms exceeded''))) (\<lambda>t. None))
      (str ''target-1'') (str ''example'') = Inr example_target \<and>
   not_skipped (example_env (\<lambda>url t. Inl (TimeoutError (str ''Timeout 60000ms exceeded''))) (\<lambda>t. None))
      False (t_name example_target) empty_db \<and>
   (\<exists>d'. scrape_target (example_env (\<lambda>url t. Inl (TimeoutError (str ''Timeout 60000ms exceeded''))) (\<lambda>t. None))
            (str ''target-1'') False (str ''example'') empty_db
          = (Inl (TimeoutError (str ''Timeout 60000ms exceeded'')), d') \<and>
        Source d' = Source empty_db \<and> Item d' = Item empty_db)"
proof -
  let ?b = "\<lambda>(url :: pystr) (t :: target). (Inl (TimeoutError (str ''Timeout 60000ms exceeded'')) :: exn + raw_item list)"
  let ?e = "example_env ?b (\<lambda>t. None)"
  have ns: "not_skipped ?e False (t_name example_target) empty_db"
    by (simp add: not_skipped_def example_env_def empty_db_def)
  have ex: "extract_items (ExampleAdapter ?b) (t_url example_target) example_target
      = Inl (TimeoutError (str ''Timeout 60000ms exceeded''))"
    by (simp add: ExampleAdapter_def)
  note th = scrape_target_extract_raises[OF example_env_config ns example_env_adapter example_env_url ex]
  show ?thesis
    apply (rule conjI[OF example_env_config])
    apply (rule conjI[OF ns])
    apply (rule th)
    done
qed

text \<open>
  Claim C2 as stated fails: in the forced run below extraction raises, and
  \<open>scrape_target\<close> does not return a result with status \<open>error\<close>; the exception
  propagates.
\<close>

theorem scrape_target_extract_counterexample:
  "fst (scrape_target (example_env (\<lambda>url t. Inl (TimeoutError (str ''Timeout 60000ms exceeded''))) (\<lambda>t. None))
          (str ''target-1'') True (str ''example'') empty_db)
     = Inl (TimeoutError (str ''Timeout 60000ms exceeded''))"
proof -
  let ?b = "\<lambda>(url :: pystr) (t :: target). (Inl (TimeoutError (str ''Timeout 60000ms exceeded'')) :: exn + raw_item list)"
  let ?e = "example_env ?b (\<lambda>t. None)"
  have ns: "not_skipped ?e True (t_name example_target) empty_db"
    by (simp add: not_skipped_def)
  have ex: "extract_items (ExampleAdapter ?b) (t_url example_target) example_target
      = Inl (TimeoutError (str ''Timeout 60000ms exceeded''))"
    by (simp add: ExampleAdapter_def)
  show ?thesis
    unfolding scrape_target_with_adapter[OF example_env_config ns example_env_adapter example_env_url]
    by (simp add: ex)
qed

subsection \<open>Adapter resolution\<close>

lemma join_contains: "x \<in> set xs \<Longrightarrow> \<exists>pre post. join sep xs = pre @ x @ post"
proof (induction sep xs rule: join.induct)
  case (1 sep)
  then show ?case by simp
next
  case (2 sep y)
  then have "join sep [y] = [] @ x @ []" by simp
  then show ?case by blast
next
  case (3 sep y z zs)
  show ?case
  proof (cases "x = y")
    case True
    then have "join sep (y # z # zs) = [] @ x @ (sep @ join sep (z # zs))" by simp
    then show ?thesis by blast
  next
    case False
    with "3.prems" have "x \<in> set (z # zs)" by simp
    from "3.IH"[OF this] obtain pre post where "join sep (z # zs) = pre @ x @ post" by blast
    then have "join sep (y # z # zs) = (y @ sep @ pre) @ x @ post" by simp
    then show ?thesis by blast
  qed
qed

lemma repr_list_contains:
  "k \<in> set ks \<Longrightarrow> \<exists>pre post. repr_list isprintable ks = pre @ py_repr isprintable k @ post"
proof -
  assume "k \<in> set ks"
  then have "py_repr isprintable k \<in> set (map (py_repr isprintable) ks)" by simp
  from join_contains[OF this, of "str '', ''"] obtain pre post where
    "join (str '', '') (map (py_repr isprintable) ks) = pre @ py_repr isprintable k @ post" by blast
  then have "repr_list isprintable ks = (str ''['' @ pre) @ py_repr isprintable k @ (post @ str '']'')"
    by (simp add: repr_list_def)
  then show ?thesis by blast
qed

lemma repr_chars_plain:
  "\<forall>c \<in> set s. 32 \<le> c \<and> c < 127 \<and> c \<noteq> 39 \<and> c \<noteq> 92 \<Longrightarrow>
     concat (map (repr_char isprintable 39) s) = s"
  by (induction s) (simp_all add: repr_char_def)

lemma py_repr_plain: "plain_identifier s \<Longrightarrow> py_repr isprintable s = [39] @ s @ [39]"
proof -
  assume p: "plain_identifier s"
  then have "39 \<notin> set s" by (auto simp: plain_identifier_def)
  moreover from p have "concat (map (repr_char isprintable 39) s) = s"
    unfolding plain_identifier_def by (rule repr_chars_plain)
  ultimately show ?thesis by (simp add: py_repr_def)
qed

text \<open>
  An identifier with a backslash is listed with the backslash doubled, one with a
  \<open>'\<close> between double quotes, and a control character in hexadecimal.
\<close>

lemma py_repr_examples:
  "py_repr isprintable [97, 92, 98] = [39, 97, 92, 92, 98, 39]"
  "py_repr isprintable [97, 39, 98] = [34, 97, 39, 98, 34]"
  "py_repr isprintable [97, 1, 98] = [39, 97, 92, 120, 48, 49, 98, 39]"
  by (simp_all add: py_repr_def repr_char_def hex_digit_def numeral_2_eq_2)

lemma get_adapter_unknown:
  assumes "map_of (ADAPTERS e) source = None"
  shows "\<exists>msg. get_adapter e source = Inl (ValueError msg) \<and>
           (\<forall>k \<in> set (map fst (ADAPTERS e)).
               py_in (py_repr (unicode_isprintable e) k) msg \<and> (plain_identifier k \<longrightarrow> py_in k msg))"
proof -
  let ?ip = "unicode_isprintable e"
  let ?head = "str ''Unknown source: '' @ source @ str ''. Available: ''"
  let ?msg = "?head @ repr_list ?ip (map fst (ADAPTERS e))"
  have "py_in (py_repr ?ip k) ?msg \<and> (plain_identifier k \<longrightarrow> py_in k ?msg)"
    if "k \<in> set (map fst (ADAPTERS e))" for k
  proof -
    from repr_list_contains[OF that] obtain pre post where
      r: "repr_list ?ip (map fst (ADAPTERS e)) = pre @ py_repr ?ip k @ post" by blast
    then have "?msg = (?head @ pre) @ py_repr ?ip k @ post" by simp
    then have 1: "py_in (py_repr ?ip k) ?msg" by (simp only: py_in_append)
    have 2: "py_in k ?msg" if "plain_identifier k"
    proof -
      from r py_repr_plain[OF that, of ?ip]
      have "?msg = (?head @ pre @ [39]) @ k @ ([39] @ post)" by simp
      then show ?thesis by (simp only: py_in_append)
    qed
    from 1 2 show ?thesis by blast
  qed
  with assms show ?thesis by (simp add: get_adapter_def)
qed

lemma scrape_target_unknown_adapter:
  assumes cfg: "get_target_config e target_id region = Inr target"
    and ns: "not_skipped e force (t_name target) d"
    and ad: "get_adapter e (target_get_source target) = Inl (ValueError msg)"
  shows "scrape_target e target_id force region d =
           (Inr \<lparr>r_status = str ''error'', r_target = t_name target, r_items = None,
                 r_errors = None, r_error = Some msg, r_adapter = None\<rparr>, after_check force d)"
  using skip_check_passes[OF ns]
  by (simp add: scrape_target_def cfg Let_def ad)

text \<open>
  Claim C9. For an identifier the registry maps to an adapter, \<open>get_adapter\<close> returns
  that adapter. For an identifier that is absent it raises \<open>ValueError\<close> with a message
  that lists the identifiers of the registry: the \<open>repr\<close> of every one occurs in it, and
  so does the identifier itself when it is printable ASCII without quote and backslash.
  A run of \<open>scrape_target\<close> whose target names the absent identifier, and which the
  skip check lets go on, returns status \<open>error\<close> with that message as error detail,
  both tables unchanged. The exception does not leave \<open>scrape_target\<close>.
\<close>

theorem get_adapter_resolution:
  "(\<forall>a. map_of (ADAPTERS e) source = Some a \<longrightarrow> get_adapter e source = Inr a) \<and>
   (map_of (ADAPTERS e) source = None \<longrightarrow>
      (\<exists>msg. get_adapter e source = Inl (ValueError msg) \<and>
             (\<forall>k \<in> set (map fst (ADAPTERS e)).
                 py_in (py_repr (unicode_isprintable e) k) msg \<and>
                 (plain_identifier k \<longrightarrow> py_in k msg)) \<and>
             (\<forall>target_id force region target d.
                 target_get_source target = source \<and>
                 get_target_config e target_id region = Inr target \<and>
                 not_skipped e force (t_name target) d \<longrightarrow>
                 (\<exists>d'. scrape_target e target_id force region d =
                         (Inr \<lparr>r_status = str ''error'', r_target = t_name target, r_items = None,
                               r_errors = None, r_error = Some msg, r_adapter = None\<rparr>, d') \<and>
                       Source d' = Source d \<and> Item d' = Item d))))"
proof (intro conjI allI impI)
  fix a assume "map_of (ADAPTERS e) source = Some a"
  then show "get_adapter e source = Inr a" by (simp add: get_adapter_def)
next
  assume "map_of (ADAPTERS e) source = None"
  from get_adapter_unknown[OF this] obtain msg where
    m: "get_adapter e source = Inl (ValueError msg)"
       "\<forall>k \<in> set (map fst (ADAPTERS e)).
           py_in (py_repr (unicode_isprintable e) k) msg \<and> (plain_identifier k \<longrightarrow> py_in k msg)"
    by blast
  have "\<exists>d'. scrape_target e target_id force region d =
                 (Inr \<lparr>r_status = str ''error'', r_target = t_name target, r_items = None,
                       r_errors = None, r_error = Some msg, r_adapter = None\<rparr>, d') \<and>
               Source d' = Source d \<and> Item d' = Item d"
    if "target_get_source target = source \<and>
        get_target_config e target_id region = Inr target \<and> not_skipped e force (t_name target) d"
    for target_id force region target d
  proof -
    from that m(1) have "get_adapter e (target_get_source target) = Inl (ValueError msg)"
      by simp
    from scrape_target_unknown_adapter[OF _ _ this] that show ?thesis
      by (intro exI[of _ "after_check force d"]) simp
  qed
  with m show "\<exists>msg. get_adapter e source = Inl (ValueError msg) \<and>
             (\<forall>k \<in> set (map fst (ADAPTERS e)).
                 py_in (py_repr (unicode_isprintable e) k) msg \<and>
                 (plain_identifier k \<longrightarrow> py_in k msg)) \<and>
             (\<forall>target_id force region target d.
                 target_get_source target = source \<and>
                 get_target_config e target_id region = Inr target \<and>
                 not_skipped e force (t_name target) d \<longrightarrow>
                 (\<exists>d'. scrape_target e target_id force region d =
                         (Inr \<lparr>r_status = str ''error'', r_target = t_name target, r_items = None,
                               r_errors = None, r_error = Some msg, r_adapter = None\<rparr>, d') \<and>
                       Source d' = Source d \<and> Item d' = Item d))"
    by blast
qed

text \<open>
  The shipped registry knows \<open>example\<close>; a target configured with source \<open>mysite\<close>
  ends with status \<open>error\<close>, and the message names \<open>example\<close>.
\<close>

definition mysite_env :: env where
  "mysite_env =
     (example_env (\<lambda>url t. Inr []) (\<lambda>t. None))
       \<lparr>config_files := \<lambda>region. Some [example_target\<lparr>t_source := Some (str ''mysite'')\<rparr>]\<rparr>"

theorem get_adapter_resolution_witness:
  "map_of (ADAPTERS mysite_env) (str ''example'') = Some (ExampleAdapter (\<lambda>url t. Inr [])) \<and>
   get_adapter mysite_env (str ''example'') = Inr (ExampleAdapter (\<lambda>url t. Inr [])) \<and>
   map_of (ADAPTERS mysite_env) (str ''mysite'') = None \<and>
   plain_identifier (str ''example'') \<and>
   (\<exists>msg. get_adapter mysite_env (str ''mysite'') = Inl (ValueError msg) \<and>
          py_in (str ''example'') msg \<and>
          (\<exists>d'. scrape_target mysite_env (str ''target-1'') True (str ''example'') empty_db
                = (Inr \<lparr>r_status = str ''error'', r_target = str ''Target A'', r_items = None,
                        r_errors = None, r_error = Some msg, r_adapter = None\<rparr>, d')))"
proof -
  let ?b = "\<lambda>(url :: pystr) (t :: target). (Inr [] :: exn + raw_item list)"
  let ?target = "example_target\<lparr>t_source := Some (str ''mysite'')\<rparr>"
  have reg: "ADAPTERS mysite_env = [(str ''example'', ExampleAdapter ?b)]"
    by (simp add: mysite_env_def example_env_def)
  have present: "map_of (ADAPTERS mysite_env) (str ''example'') = Some (ExampleAdapter ?b)"
    unfolding reg by simp
  have absent: "map_of (ADAPTERS mysite_env) (str ''mysite'') = None"
    unfolding reg by (simp add: str_def)
  have plain: "plain_identifier (str ''example'')" by (simp add: plain_identifier_def str_def)
  note th = get_adapter_resolution[of mysite_env]
  from th[of "str ''example''"] present
  have p: "get_adapter mysite_env (str ''example'') = Inr (ExampleAdapter ?b)" by blast
  from th[of "str ''mysite''"] absent obtain msg where
    m: "get_adapter mysite_env (str ''mysite'') = Inl (ValueError msg)"
       "\<forall>k \<in> set (map fst (ADAPTERS mysite_env)).
           py_in (py_repr (unicode_isprintable mysite_env) k) msg \<and> (plain_identifier k \<longrightarrow> py_in k msg)"
       "\<And>target_id force region target d.
          target_get_source target = str ''mysite'' \<and>
          get_target_config mysite_env target_id region = Inr target \<and>
          not_skipped mysite_env force (t_name target) d \<Longrightarrow>
          \<exists>d'. scrape_target mysite_env target_id force region d =
                 (Inr \<lparr>r_status = str ''error'', r_target = t_name target, r_items = None,
                       r_errors = None, r_error = Some msg, r_adapter = None\<rparr>, d') \<and>
               Source d' = Source d \<and> Item d' = Item d"
    by blast
  from m(2) plain have l: "py_in (str ''example'') msg" unfolding reg by simp
  have h: "target_get_source ?target = str ''mysite'' \<and>
          get_target_config mysite_env (str ''target-1'') (str ''example'') = Inr ?target \<and>
          not_skipped mysite_env True (t_name ?target) empty_db"
    by (simp add: mysite_env_def example_env_def target_get_source_def get_target_config_def
        load_config_def example_target_def not_skipped_def)
  have tn: "t_name ?target = str ''Target A''" by (simp add: example_target_def)
  from m(3)[OF h] obtain d' where
    "scrape_target mysite_env (str ''target-1'') True (str ''example'') empty_db =
       (Inr \<lparr>r_status = str ''error'', r_target = str ''Target A'', r_items = None,
             r_errors = None, r_error = Some msg, r_adapter = None\<rparr>, d')"
    unfolding tn by blast
  then have s: "\<exists>d'. scrape_target mysite_env (str ''target-1'') True (str ''example'') empty_db =
       (Inr \<lparr>r_status = str ''error'', r_target = str ''Target A'', r_items = None,
             r_errors = None, r_error = Some msg, r_adapter = None\<rparr>, d')" by (rule exI)
  show ?thesis
    apply (rule conjI[OF present])
    apply (rule conjI[OF p])
    apply (rule conjI[OF absent])
    apply (rule conjI[OF plain])
    apply (rule exI[of _ msg])
    apply (rule conjI[OF m(1)])
    apply (rule conjI[OF l s])
    done
qed

subsection \<open>The loop over the items\<close>

lemma insert_item_fault:
  "db_fault e (calls d) = Some x \<Longrightarrow>
     insert_item e source_id number title category summary full_text_compressed tags source_url adapter_name d
       = (Inl x, d\<lparr>calls := Suc (calls d)\<rparr>)"
  by (simp add: insert_item_def get_db_connection_def Let_def)

lemma insert_item_ok:
  assumes "db_fault e (calls d) = None"
  shows "\<exists>d'. insert_item e source_id number title category summary full_text_compressed tags source_url
                 adapter_name d = (Inr (), d') \<and> calls d' = Suc (calls d) \<and> Source d' = Source d"
  using assms by (simp add: insert_item_def get_db_connection_def Let_def)

lemma insert_source_ok:
  assumes "db_fault e (calls d) = None"
  shows "\<exists>sid d'. insert_source e name slug category metadata source_url adapter_name d = (Inr sid, d') \<and>
           calls d' = Suc (calls d) \<and> Item d' = Item d"
  using assms by (simp add: insert_source_def get_db_connection_def Let_def split: option.split)

lemma process_item_not_scalar:
  "\<not> scalar_values (raw_text item) \<Longrightarrow>
     process_item e source_id adapter_name item d = (Inl UnicodeEncodeError, d)"
proof -
  assume n: "\<not> scalar_values (raw_text item)"
  then have "raw_text item \<noteq> []" by (auto simp: scalar_values_def)
  with utf8_encode_not_scalar[OF n] have "compress_text (lz4 e) (raw_text item) = Inl UnicodeEncodeError"
    by (simp add: compress_text_def)
  then show ?thesis by (simp add: process_item_def Let_def split: prod.split)
qed

lemma process_item_scalar:
  assumes "scalar_values (raw_text item)"
  shows "\<exists>y. process_item e source_id adapter_name item d =
           insert_item e source_id (raw_number item) (raw_title item)
             (fst (categorize_content (str_lower e) CATEGORY_KEYWORDS (raw_title item) (raw_text item)))
             (generate_summary (raw_text item)) y
             (snd (categorize_content (str_lower e) CATEGORY_KEYWORDS (raw_title item) (raw_text item)))
             (raw_url item) adapter_name d"
proof -
  from assms compress_text_raises_iff[of "lz4 e" "raw_text item"]
  obtain y where "compress_text (lz4 e) (raw_text item) = Inr y"
    by (cases "compress_text (lz4 e) (raw_text item)") auto
  then have "process_item e source_id adapter_name item d =
           insert_item e source_id (raw_number item) (raw_title item)
             (fst (categorize_content (str_lower e) CATEGORY_KEYWORDS (raw_title item) (raw_text item)))
             (generate_summary (raw_text item)) y
             (snd (categorize_content (str_lower e) CATEGORY_KEYWORDS (raw_title item) (raw_text item)))
             (raw_url item) adapter_name d"
    by (simp add: process_item_def Let_def split: prod.split)
  then show ?thesis by (rule exI)
qed

lemma process_item_fault:
  assumes "scalar_values (raw_text item)" and "db_fault e (calls d) = Some x"
  shows "process_item e source_id adapter_name item d = (Inl x, d\<lparr>calls := Suc (calls d)\<rparr>)"
  using process_item_scalar[OF assms(1), of e source_id adapter_name d] insert_item_fault[OF assms(2)]
  by auto

lemma process_item_ok:
  assumes "scalar_values (raw_text item)" and "db_fault e (calls d) = None"
  shows "\<exists>d'. process_item e source_id adapter_name item d = (Inr (), d') \<and> calls d' = Suc (calls d)"
proof -
  from process_item_scalar[OF assms(1), of e source_id adapter_name d] obtain y where
    p: "process_item e source_id adapter_name item d =
           insert_item e source_id (raw_number item) (raw_title item)
             (fst (categorize_content (str_lower e) CATEGORY_KEYWORDS (raw_title item) (raw_text item)))
             (generate_summary (raw_text item)) y
             (snd (categorize_content (str_lower e) CATEGORY_KEYWORDS (raw_title item) (raw_text item)))
             (raw_url item) adapter_name d" by blast
  from insert_item_ok[OF assms(2)] show ?thesis unfolding p by blast
qed

text \<open>
  So the loop body raises exactly for the items that \<open>failed_items\<close> collects: when the
  text has no UTF-8 encoding, or when the database call of the item raises.
\<close>

lemma process_item_raises_iff:
  "isl (fst (process_item e source_id adapter_name item d)) \<longleftrightarrow>
     \<not> scalar_values (raw_text item) \<or> db_fault e (calls d) \<noteq> None"
proof (cases "scalar_values (raw_text item)")
  case False
  with process_item_not_scalar[OF False, of e source_id adapter_name d] show ?thesis by simp
next
  case True
  show ?thesis
  proof (cases "db_fault e (calls d)")
    case None
    from process_item_ok[OF True None, of source_id adapter_name] True None show ?thesis by auto
  next
    case (Some x)
    from process_item_fault[OF True Some, of source_id adapter_name] True Some show ?thesis by simp
  qed
qed

lemma failed_items_le: "length (failed_items e items t) \<le> length items"
  by (induction items arbitrary: t) (auto simp: le_SucI)

lemma process_items_counts:
  "fst (process_items e source_id adapter_name items success_count error_count d) =
     (success_count + (length items - length (failed_items e items (calls d))),
      error_count + length (failed_items e items (calls d)))"
proof (induction items arbitrary: success_count error_count d)
  case Nil
  show ?case by simp
next
  case (Cons item items)
  show ?case
  proof (cases "scalar_values (raw_text item)")
    case False
    from process_item_not_scalar[OF False] False Cons.IH[of success_count "error_count + 1" d]
    show ?thesis by simp
  next
    case True
    show ?thesis
    proof (cases "db_fault e (calls d)")
      case None
      from process_item_ok[OF True None] obtain d' where
        p: "process_item e source_id adapter_name item d = (Inr (), d')" "calls d' = Suc (calls d)"
        by blast
      from failed_items_le[of e items "Suc (calls d)"] Cons.IH[of "success_count + 1" error_count d'] p True None
      show ?thesis by (simp add: Suc_diff_le)
    next
      case (Some x)
      from process_item_fault[OF True Some] Cons.IH[of success_count "error_count + 1" "d\<lparr>calls := Suc (calls d)\<rparr>"]
        True Some
      show ?thesis by simp
    qed
  qed
qed

text \<open>
  Claim C6. The run reaches the loop: extraction returned the non-empty list \<open>items\<close>
  and the source upsert went through. Let \<open>k\<close> be the number of items that fail, that
  is, whose text cannot be encoded or whose database call raises. Then \<open>scrape_target\<close>
  returns status \<open>success\<close> with \<open>items = length items - k\<close> and \<open>errors = k\<close>:
  every failure is caught and counted, and the loop goes on to the next item.
\<close>

theorem scrape_target_partial_failure:
  assumes cfg: "get_target_config e target_id region = Inr target"
    and ns: "not_skipped e force (t_name target) d"
    and ad: "get_adapter e (target_get_source target) = Inr a"
    and url: "validate_url a (t_url target)"
    and ex: "extract_items a (t_url target) target = Inr items"
    and ne: "items \<noteq> []"
    and ok: "db_fault e (calls (after_check force d)) = None"
    and k: "k = length (failed_items e items (Suc (calls (after_check force d))))"
  shows "k \<le> length items \<and>
     (\<exists>d'. scrape_target e target_id force region d =
        (Inr \<lparr>r_status = str ''success'', r_target = t_name target,
              r_items = Some (length items - k), r_errors = Some k, r_error = None,
              r_adapter = Some (target_get_source target)\<rparr>, d'))"
proof -
  from insert_source_ok[OF ok] obtain sid d2 where
    s: "insert_source e (t_name target) (t_slug target) (t_category target)
          (target_get_metadata target) (t_url target) (target_get_source target)
          (after_check force d) = (Inr sid, d2)"
      "calls d2 = Suc (calls (after_check force d))"
    by blast
  obtain sc ec d3 where p: "process_items e sid (target_get_source target) items 0 0 d2 = ((sc, ec), d3)"
    by (cases "process_items e sid (target_get_source target) items 0 0 d2") auto
  from process_items_counts[of e sid "target_get_source target" items 0 0 d2] p s(2) k
  have c: "sc = length items - k" "ec = k" by simp_all
  have "scrape_target e target_id force region d =
        (Inr \<lparr>r_status = str ''success'', r_target = t_name target,
              r_items = Some (length items - k), r_errors = Some k, r_error = None,
              r_adapter = Some (target_get_source target)\<rparr>, d3)"
    using scrape_target_with_adapter[OF cfg ns ad url] ex ne s(1) p c by simp
  moreover from k have "k \<le> length items" by (simp add: failed_items_le)
  ultimately show ?thesis by blast
qed

text \<open>
  Ten items, and the database call of the seventh (call number 7 of the forced run,
  after the source upsert as call 0 and six items as calls 1 to 6) is refused: status
  \<open>success\<close>, 9 items, 1 error.
\<close>

theorem scrape_target_partial_failure_witness:
  "get_target_config (example_env (\<lambda>url t. Inr example_raw_items)
        (\<lambda>t. if t = 7 then Some (OperationalError (str ''connection refused'')) else None))
      (str ''target-1'') (str ''example'') = Inr example_target \<and>
   length example_raw_items = 10 \<and>
   length (failed_items (example_env (\<lambda>url t. Inr example_raw_items)
        (\<lambda>t. if t = 7 then Some (OperationalError (str ''connection refused'')) else None))
      example_raw_items 1) = 1 \<and>
   (\<exists>d'. scrape_target (example_env (\<lambda>url t. Inr example_raw_items)
        (\<lambda>t. if t = 7 then Some (OperationalError (str ''connection refused'')) else None))
      (str ''target-1'') True (str ''example'') empty_db
     = (Inr \<lparr>r_status = str ''success'', r_target = t_name example_target, r_items = Some (10 - 1),
             r_errors = Some 1, r_error = None,
             r_adapter = Some (target_get_source example_target)\<rparr>, d'))"
proof -
  let ?b = "\<lambda>(url :: pystr) (t :: target). (Inr example_raw_items :: exn + raw_item list)"
  let ?f = "\<lambda>t :: nat. if t = 7 then Some (OperationalError (str ''connection refused'')) else None"
  let ?e = "example_env ?b ?f"
  have ns: "not_skipped ?e True (t_name example_target) empty_db"
    by (simp add: not_skipped_def)
  have ex: "extract_items (ExampleAdapter ?b) (t_url example_target) example_target = Inr example_raw_items"
    by (simp add: ExampleAdapter_def)
  have len: "length example_raw_items = 10" by (simp add: example_raw_items_def)
  then have ne: "example_raw_items \<noteq> []" by auto
  have t0: "calls (after_check True empty_db) = 0" by (simp add: empty_db_def)
  have ok: "db_fault ?e (calls (after_check True empty_db)) = None"
    unfolding t0 by (simp add: example_env_def)
  have sc: "scalar_values (str ''What is new in this release'')"
    by (simp add: scalar_values_def str_def)
  have k: "length (failed_items ?e example_raw_items 1) = 1"
    by (simp add: example_raw_items_def sc example_env_def)
  have k': "1 = length (failed_items ?e example_raw_items (Suc (calls (after_check True empty_db))))"
    unfolding t0 using k by simp
  note th = scrape_target_partial_failure[OF example_env_config ns example_env_adapter example_env_url
      ex ne ok k', THEN conjunct2, unfolded len]
  show ?thesis
    apply (rule conjI[OF example_env_config])
    apply (rule conjI[OF len])
    apply (rule conjI[OF k])
    apply (rule th)
    done
qed

subsection \<open>The summary\<close>

lemma insert_item_row:
  assumes u: "unique_keys d" and ok: "db_fault e (calls d) = None"
  shows "\<exists>d' row. insert_item e source_id number title category summary full_text_compressed tags source_url
                     adapter_name d = (Inr (), d') \<and>
           filter (\<lambda>x. item_key x = (source_id, number)) (Item d') = [row] \<and>
           item_title row = title \<and> item_summary row = summary \<and>
           item_fullText row = full_text_compressed"
proof (cases "\<exists>r \<in> set (Item d). item_key r = (source_id, number)")
  case True
  then obtain r where r: "r \<in> set (Item d)" "item_key r = (source_id, number)" by blast
  from u have di: "distinct (map item_key (Item d))" by (simp add: unique_keys_def)
  let ?upd = "\<lambda>x. if item_key x = (source_id, number)
                   then x\<lparr>item_title := title, item_category := category,
                          item_summary := summary, item_tags := tags,
                          item_fullText := full_text_compressed,
                          item_metadata := [(str ''adapter'', adapter_name)],
                          item_scrapedAt := NOW e (calls d)\<rparr>
                   else x"
  have key: "item_key (?upd x) = item_key x" for x by simp
  have "filter (\<lambda>x. item_key x = (source_id, number)) (map ?upd (Item d))
      = map ?upd (filter (\<lambda>x. item_key x = (source_id, number)) (Item d))"
    using filter_map_same_key[of item_key ?upd "\<lambda>k. k = (source_id, number)" "Item d"] key by simp
  also have "filter (\<lambda>x. item_key x = (source_id, number)) (Item d) = [r]"
    using filter_key_unique[OF di r(1)] r(2) by simp
  finally have "filter (\<lambda>x. item_key x = (source_id, number)) (map ?upd (Item d)) = [?upd r]"
    by simp
  with insert_item_conflict[OF di r ok] r(2) show ?thesis by simp
next
  case False
  then have nk: "\<forall>x \<in> set (Item d). item_key x \<noteq> (source_id, number)" by blast
  then have "filter (\<lambda>x. item_key x = (source_id, number)) (Item d) = []"
    by (simp add: filter_empty_conv)
  with insert_item_fresh[OF nk ok] show ?thesis by (simp add: item_key_def)
qed

text \<open>
  Claim C8. When an item is processed without failure, the row stored for it holds as
  summary the first 200 characters of the text followed by \<open>...\<close> if the text is
  longer than 200 characters, and the text itself otherwise (also at exactly 200).
\<close>

theorem process_item_summary:
  assumes u: "unique_keys d" and s: "scalar_values (raw_text item)" and ok: "db_fault e (calls d) = None"
  shows "\<exists>d' row. process_item e source_id adapter_name item d = (Inr (), d') \<and>
           filter (\<lambda>x. item_key x = (source_id, raw_number item)) (Item d') = [row] \<and>
           (length (raw_text item) > 200 \<longrightarrow> item_summary row = take 200 (raw_text item) @ str ''...'') \<and>
           (length (raw_text item) \<le> 200 \<longrightarrow> item_summary row = raw_text item)"
proof -
  from process_item_scalar[OF s, of e source_id adapter_name d] obtain y where
    p: "process_item e source_id adapter_name item d =
           insert_item e source_id (raw_number item) (raw_title item)
             (fst (categorize_content (str_lower e) CATEGORY_KEYWORDS (raw_title item) (raw_text item)))
             (generate_summary (raw_text item)) y
             (snd (categorize_content (str_lower e) CATEGORY_KEYWORDS (raw_title item) (raw_text item)))
             (raw_url item) adapter_name d" by blast
  from insert_item_row[OF u ok] obtain d' row where
    "process_item e source_id adapter_name item d = (Inr (), d')"
    "filter (\<lambda>x. item_key x = (source_id, raw_number item)) (Item d') = [row]"
    "item_summary row = generate_summary (raw_text item)"
    unfolding p by blast
  then show ?thesis by (auto simp: generate_summary_def)
qed

text \<open>
  A text of 250 characters is stored with a summary of its first 200 characters and the
  marker; a text of 150 characters with itself as summary.
\<close>

theorem process_item_summary_witness:
  "unique_keys empty_db \<and> scalar_values (replicate 250 97) \<and>
   (\<exists>d' row. process_item (example_env (\<lambda>url t. Inr []) (\<lambda>t. None)) 1 (str ''example'')
                \<lparr>raw_number = str ''ITEM-1'', raw_title = str ''Long'', raw_text = replicate 250 97,
                  raw_url = str ''https://example.com/a/1''\<rparr> empty_db = (Inr (), d') \<and>
              filter (\<lambda>x. item_key x = (1, str ''ITEM-1'')) (Item d') = [row] \<and>
              item_summary row = replicate 200 97 @ str ''...'') \<and>
   (\<exists>d' row. process_item (example_env (\<lambda>url t. Inr []) (\<lambda>t. None)) 1 (str ''example'')
                \<lparr>raw_number = str ''ITEM-2'', raw_title = str ''Short'', raw_text = replicate 150 97,
                  raw_url = str ''https://example.com/a/2''\<rparr> empty_db = (Inr (), d') \<and>
              filter (\<lambda>x. item_key x = (1, str ''ITEM-2'')) (Item d') = [row] \<and>
              item_summary row = replicate 150 97)"
proof -
  let ?e = "example_env (\<lambda>(url :: pystr) (t :: target). (Inr [] :: exn + raw_item list)) (\<lambda>t. None)"
  let ?long = "\<lparr>raw_number = str ''ITEM-1'', raw_title = str ''Long'', raw_text = replicate 250 97,
                  raw_url = str ''https://example.com/a/1''\<rparr>"
  let ?short = "\<lparr>raw_number = str ''ITEM-2'', raw_title = str ''Short'', raw_text = replicate 150 97,
                  raw_url = str ''https://example.com/a/2''\<rparr>"
  have u: "unique_keys empty_db" by (simp add: unique_keys_def empty_db_def)
  have s1: "scalar_values (replicate 250 97)" by (simp add: scalar_values_def)
  have s2: "scalar_values (replicate 150 97)" by (simp add: scalar_values_def)
  have ok: "db_fault ?e (calls empty_db) = None" by (simp add: example_env_def)
  from process_item_summary[OF u _ ok, of ?long 1 "str ''example''"] s1
  obtain d1 row1 where a: "process_item ?e 1 (str ''example'') ?long empty_db = (Inr (), d1)"
    "filter (\<lambda>x. item_key x = (1, str ''ITEM-1'')) (Item d1) = [row1]"
    "item_summary row1 = replicate 200 97 @ str ''...''"
    by auto
  from process_item_summary[OF u _ ok, of ?short 1 "str ''example''"] s2
  obtain d2 row2 where b: "process_item ?e 1 (str ''example'') ?short empty_db = (Inr (), d2)"
    "filter (\<lambda>x. item_key x = (1, str ''ITEM-2'')) (Item d2) = [row2]"
    "item_summary row2 = replicate 150 97"
    by auto
  from a have A: "\<exists>d' row. process_item ?e 1 (str ''example'') ?long empty_db = (Inr (), d') \<and>
              filter (\<lambda>x. item_key x = (1, str ''ITEM-1'')) (Item d') = [row] \<and>
              item_summary row = replicate 200 97 @ str ''...''" by blast
  from b have B: "\<exists>d' row. process_item ?e 1 (str ''example'') ?short empty_db = (Inr (), d') \<and>
              filter (\<lambda>x. item_key x = (1, str ''ITEM-2'')) (Item d') = [row] \<and>
              item_summary row = replicate 150 97" by blast
  show ?thesis
    apply (rule conjI[OF u])
    apply (rule conjI[OF s1])
    apply (rule conjI[OF A B])
    done
qed

end
